theory Spec2Isabelle
  imports Complex_Main "HOL-Library.Log_Nat" "HOL-Library.Word"
begin

section \<open>JavaScript values\<close>

text \<open>
  The application (src/src/App.tsx) is a React component written in TypeScript. Its
  type annotations are erased when it runs, and the rows of an imported spreadsheet are
  typed \<open>any\<close>, so the model works with the values the program holds at run time.

  A JavaScript number is a finite value, one of the two infinities, or NaN. A finite
  value is written \<open>Fin r\<close> with \<open>r\<close> rational; it stands for a number of the
  language when \<open>r\<close> is a binary64 value. Every arithmetic operation on finite values
  is the exact result rounded to binary64 (to nearest, ties to even, overflow to an
  infinity). Negative zero is identified with zero (it compares equal to zero and is
  falsy like it).
\<close>

datatype jsnum = is_Fin: Fin (the_Fin: rat) | PInf | NInf | NaN

fun jneg :: "jsnum \<Rightarrow> jsnum" where
  "jneg (Fin a) = Fin (- a)"
| "jneg PInf = NInf"
| "jneg NInf = PInf"
| "jneg NaN = NaN"

text \<open>Rounding to binary64. \<open>pot2 k\<close> is the power of two of exponent \<open>k\<close>.\<close>

definition pot2 :: "int \<Rightarrow> rat" where
  "pot2 k = (if 0 \<le> k then 2 ^ nat k else 1 / 2 ^ nat (- k))"

text \<open>The binary exponent of a positive rational: the \<open>e\<close> with \<open>2^e \<le> x < 2^(e+1)\<close>.\<close>

definition expoente :: "rat \<Rightarrow> int" where
  "expoente x =
     (if 1 \<le> x then bitlen \<lfloor>x\<rfloor> - 1
      else (let k = bitlen \<lfloor>1 / x\<rfloor> - 1
            in if x * 2 ^ nat k = 1 then - k else - k - 1))"

text \<open>Rounding to the nearest integer, a tie going to the even one.\<close>

definition arredondaPar :: "rat \<Rightarrow> int" where
  "arredondaPar y =
     (let f = \<lfloor>y\<rfloor>; d = y - of_int f
      in if d < 1 / 2 then f else if 1 / 2 < d then f + 1 else if even f then f else f + 1)"

text \<open>
  A positive rational is rounded to a multiple of the quantum of its binade (53
  significant bits; the quantum of the subnormal range below the exponent -1022), and
  to infinity when the rounded value reaches \<open>2^1024\<close>.
\<close>

definition round64pos :: "rat \<Rightarrow> jsnum" where
  "round64pos x =
     (let q = pot2 (max (expoente x) (- 1022) - 52);
          r = of_int (arredondaPar (x / q)) * q
      in if pot2 1024 \<le> r then PInf else Fin r)"

definition round64 :: "rat \<Rightarrow> jsnum" where
  "round64 x =
     (if x = 0 then Fin 0 else if 0 < x then round64pos x else jneg (round64pos (- x)))"

text \<open>A rational is a binary64 value when rounding leaves it unchanged.\<close>

definition binary64 :: "rat \<Rightarrow> bool" where
  "binary64 r = (round64 r = Fin r)"

text \<open>\<open>a + b\<close> on numbers.\<close>

fun jadd :: "jsnum \<Rightarrow> jsnum \<Rightarrow> jsnum" where
  "jadd NaN _ = NaN"
| "jadd _ NaN = NaN"
| "jadd (Fin a) (Fin b) = round64 (a + b)"
| "jadd PInf NInf = NaN"
| "jadd NInf PInf = NaN"
| "jadd PInf _ = PInf"
| "jadd _ PInf = PInf"
| "jadd NInf _ = NInf"
| "jadd _ NInf = NInf"

text \<open>\<open>a - b\<close> on numbers.\<close>

definition jsub :: "jsnum \<Rightarrow> jsnum \<Rightarrow> jsnum" where
  "jsub a b = jadd a (jneg b)"

text \<open>The sign of a number that is not NaN: -1, 0 or 1.\<close>

fun jsign :: "jsnum \<Rightarrow> int" where
  "jsign (Fin a) = (if a < 0 then - 1 else if a = 0 then 0 else 1)"
| "jsign PInf = 1"
| "jsign NInf = - 1"
| "jsign NaN = 0"

definition inf_of_sign :: "int \<Rightarrow> jsnum" where
  "inf_of_sign s = (if s = 0 then NaN else if s < 0 then NInf else PInf)"

text \<open>\<open>a * b\<close> on numbers: an infinity times zero is NaN.\<close>

fun jmul :: "jsnum \<Rightarrow> jsnum \<Rightarrow> jsnum" where
  "jmul NaN _ = NaN"
| "jmul _ NaN = NaN"
| "jmul (Fin a) (Fin b) = round64 (a * b)"
| "jmul a b = inf_of_sign (jsign a * jsign b)"

text \<open>
  \<open>a / b\<close> on numbers. A finite non-zero value divided by zero is an infinity (of the
  sign of the dividend, zero being taken as positive), zero divided by zero is NaN.
\<close>

fun jdiv :: "jsnum \<Rightarrow> jsnum \<Rightarrow> jsnum" where
  "jdiv NaN _ = NaN"
| "jdiv _ NaN = NaN"
| "jdiv (Fin a) (Fin b) = (if b = 0 then inf_of_sign (jsign (Fin a)) else round64 (a / b))"
| "jdiv (Fin a) _ = Fin 0"
| "jdiv PInf (Fin b) = (if b < 0 then NInf else PInf)"
| "jdiv NInf (Fin b) = (if b < 0 then PInf else NInf)"
| "jdiv _ _ = NaN"

text \<open>\<open>a > b\<close> on numbers: false as soon as one side is NaN.\<close>

fun jgt :: "jsnum \<Rightarrow> jsnum \<Rightarrow> bool" where
  "jgt NaN _ = False"
| "jgt _ NaN = False"
| "jgt (Fin a) (Fin b) = (a > b)"
| "jgt PInf b = (b \<noteq> PInf)"
| "jgt a NInf = (a \<noteq> NInf)"
| "jgt _ _ = False"

text \<open>A number is truthy unless it is zero or NaN.\<close>

definition num_truthy :: "jsnum \<Rightarrow> bool" where
  "num_truthy n = (n \<noteq> Fin 0 \<and> n \<noteq> NaN)"

text \<open>\<open>n || 0\<close> on a number.\<close>

definition orZero :: "jsnum \<Rightarrow> jsnum" where
  "orZero n = (if num_truthy n then n else Fin 0)"

text \<open>
  A string is a sequence of UTF-16 code units. \<open>U\<close> writes a literal whose characters
  are all below U+0100, where the code unit is the character's number.
\<close>

type_synonym jsstring = "16 word list"

definition U :: "string \<Rightarrow> jsstring" where
  "U s = map (\<lambda>c. of_nat (of_char c)) s"

text \<open>
  The values a cell of an imported row can hold: a missing cell reads as
  \<open>undefined\<close>; the spreadsheet reader yields strings, numbers, booleans and \<open>null\<close>.
\<close>

datatype jsval = JUndefined | JNull | JBool bool | JNum jsnum | JStr jsstring

fun truthy :: "jsval \<Rightarrow> bool" where
  "truthy JUndefined = False"
| "truthy JNull = False"
| "truthy (JBool b) = b"
| "truthy (JNum n) = num_truthy n"
| "truthy (JStr s) = (s \<noteq> [])"

text \<open>\<open>a || b\<close> on values.\<close>

definition js_or :: "jsval \<Rightarrow> jsval \<Rightarrow> jsval" where
  "js_or a b = (if truthy a then a else b)"

text \<open>
  \<open>Number(v)\<close>. The conversion of a string to a number is the language's own
  (StringToNumber); it is a parameter of the model.
\<close>

fun Number :: "(jsstring \<Rightarrow> jsnum) \<Rightarrow> jsval \<Rightarrow> jsnum" where
  "Number sn JUndefined = NaN"
| "Number sn JNull = Fin 0"
| "Number sn (JBool b) = (if b then Fin 1 else Fin 0)"
| "Number sn (JNum n) = n"
| "Number sn (JStr s) = sn s"

text \<open>
  \<open>String(v)\<close>, as a template literal or a property access applies it. The conversion
  of a number to a string is the language's own (Number::toString); it is a parameter.
\<close>

fun ToString :: "(jsnum \<Rightarrow> jsstring) \<Rightarrow> jsval \<Rightarrow> jsstring" where
  "ToString ns JUndefined = U ''undefined''"
| "ToString ns JNull = U ''null''"
| "ToString ns (JBool b) = (if b then U ''true'' else U ''false'')"
| "ToString ns (JNum n) = ns n"
| "ToString ns (JStr s) = s"

section \<open>The record set and its ingestors\<close>

text \<open>The type \<open>Entry\<close> of App.tsx; an optional field that is absent is \<open>undefined\<close>.\<close>

record Entry =
  fornecedor :: jsval
  valorInicial :: jsnum
  valorFinal :: jsnum
  contaRazao :: jsval
  area :: jsval
  mesAno :: jsval
  periodo :: jsval

text \<open>
  A row of the spreadsheet, as an object keyed by the seven column names: Fornecedor,
  Valor Cotado (R$), Valor Final (R$), Conta Razao, Area, Mes/Ano, Periodo (the last
  four carry their Portuguese accents in the source).
\<close>

record Row =
  Fornecedor :: jsval
  Valor_Cotado :: jsval
  Valor_Final :: jsval
  Conta_Razao :: jsval
  Area :: jsval
  Mes_Ano :: jsval
  Periodo :: jsval

text \<open>The row mapping of \<open>handleFileUpload\<close> (\<open>importedData\<close>).\<close>

definition importRow :: "(jsstring \<Rightarrow> jsnum) \<Rightarrow> Row \<Rightarrow> Entry" where
  "importRow sn row =
     \<lparr> fornecedor = js_or (Fornecedor row) (JStr []),
       valorInicial = orZero (Number sn (Valor_Cotado row)),
       valorFinal = orZero (Number sn (Valor_Final row)),
       contaRazao = js_or (Conta_Razao row) (JStr []),
       area = js_or (Area row) (JStr []),
       mesAno = js_or (Mes_Ano row) (JStr []),
       periodo = js_or (Periodo row) (JStr []) \<rparr>"

definition fromTabularRows :: "(jsstring \<Rightarrow> jsnum) \<Rightarrow> Row list \<Rightarrow> Entry list" where
  "fromTabularRows sn json = map (importRow sn) json"

text \<open>The row mapping of \<open>exportToExcel\<close> (\<open>formattedData\<close>).\<close>

definition exportRow :: "Entry \<Rightarrow> Row" where
  "exportRow item =
     \<lparr> Fornecedor = fornecedor item,
       Valor_Cotado = JNum (valorInicial item),
       Valor_Final = JNum (valorFinal item),
       Conta_Razao = js_or (contaRazao item) (JStr []),
       Area = js_or (area item) (JStr []),
       Mes_Ano = js_or (mesAno item) (JStr []),
       Periodo = js_or (periodo item) (JStr []) \<rparr>"

definition toTabularRows :: "Entry list \<Rightarrow> Row list" where
  "toTabularRows data = map exportRow data"

text \<open>
  A numeric form field holds a number or the empty string (\<open>number | ""\<close>): it starts
  empty, and every edit stores \<open>Number(e.target.value)\<close>.
\<close>

datatype numfield = Vazio | Valor jsnum

fun numfield_truthy :: "numfield \<Rightarrow> bool" where
  "numfield_truthy Vazio = False"
| "numfield_truthy (Valor n) = num_truthy n"

text \<open>\<open>Number(v)\<close> on a numeric form field: the empty string converts to 0.\<close>

fun numfield_Number :: "numfield \<Rightarrow> jsnum" where
  "numfield_Number Vazio = Fin 0"
| "numfield_Number (Valor n) = n"

text \<open>
  The state of the component: the record set and the nine form fields. A form field
  that shares its name with a field of \<open>Entry\<close> carries the suffix \<open>F\<close>.
\<close>

record App =
  data :: "Entry list"
  fornecedorInicial :: jsstring
  valorInicialF :: numfield
  fornecedorFinal :: jsstring
  valorFinalF :: numfield
  contaRazaoF :: jsstring
  areaF :: jsstring
  mes :: jsstring
  ano :: jsstring
  periodoF :: jsstring

text \<open>The condition of \<open>handleAdd\<close>: the four required fields are truthy.\<close>

definition aceita :: "App \<Rightarrow> bool" where
  "aceita s = (fornecedorInicial s \<noteq> [] \<and> numfield_truthy (valorInicialF s) \<and>
               fornecedorFinal s \<noteq> [] \<and> numfield_truthy (valorFinalF s))"

text \<open>The entry \<open>handleAdd\<close> builds; U+2192 is the arrow between the two suppliers.\<close>

definition novaEntrada :: "App \<Rightarrow> Entry" where
  "novaEntrada s =
     \<lparr> fornecedor = JStr (fornecedorInicial s @ [0x20, 0x2192, 0x20] @ fornecedorFinal s),
       valorInicial = numfield_Number (valorInicialF s),
       valorFinal = numfield_Number (valorFinalF s),
       contaRazao = JStr (contaRazaoF s),
       area = JStr (areaF s),
       mesAno = (if mes s \<noteq> [] \<and> ano s \<noteq> [] then JStr (mes s @ U ''/'' @ ano s)
                 else JStr []),
       periodo = JStr (periodoF s) \<rparr>"

definition handleAdd :: "App \<Rightarrow> App" where
  "handleAdd s =
     (if aceita s then
        s\<lparr> data := data s @ [novaEntrada s],
           fornecedorInicial := [], valorInicialF := Vazio,
           fornecedorFinal := [], valorFinalF := Vazio,
           contaRazaoF := [], areaF := [], mes := [], ano := [], periodoF := [] \<rparr>
      else s)"

text \<open>
  The transitions of the component that write the record set: the buttons "Limpar tudo"
  and "Limpar ultimo", the manual addition, and the upload of a spreadsheet. The upload
  carries the rows the reader returned, or nothing when no file was chosen or its
  content could not be read (\<open>handleFileUpload\<close> then returns early).
\<close>

datatype event = LimparTudo | LimparUltimo | Adicionar | Carregar "Row list option"

fun step :: "(jsstring \<Rightarrow> jsnum) \<Rightarrow> App \<Rightarrow> event \<Rightarrow> App" where
  "step sn s LimparTudo = s\<lparr> data := [] \<rparr>"
| "step sn s LimparUltimo = s\<lparr> data := butlast (data s) \<rparr>"
| "step sn s Adicionar = handleAdd s"
| "step sn s (Carregar None) = s"
| "step sn s (Carregar (Some json)) = s\<lparr> data := fromTabularRows sn json \<rparr>"

section \<open>Aggregation\<close>

definition totalInicial :: "Entry list \<Rightarrow> jsnum" where
  "totalInicial dat = foldl (\<lambda>acc curr. jadd acc (valorInicial curr)) (Fin 0) dat"

definition totalFinal :: "Entry list \<Rightarrow> jsnum" where
  "totalFinal dat = foldl (\<lambda>acc curr. jadd acc (valorFinal curr)) (Fin 0) dat"

definition economia :: "Entry list \<Rightarrow> jsnum" where
  "economia dat = jsub (totalInicial dat) (totalFinal dat)"

text \<open>
  \<open>economiaGeralPerc\<close> of \<open>exportToPDF\<close>; the summary card computes the same
  expression.
\<close>

definition economiaGeralPerc :: "Entry list \<Rightarrow> jsnum" where
  "economiaGeralPerc dat =
     (if jgt (totalInicial dat) (Fin 0)
      then jmul (jdiv (economia dat) (totalInicial dat)) (Fin 100)
      else Fin 0)"

text \<open>
  \<open>contaMaisUsada\<close> is a plain object used as a dictionary from category to summed
  final value. Its own properties are modelled as an association list in the order the
  keys were created. Reading a property that is not its own finds the properties of
  \<open>Object.prototype\<close>: the accessor \<open>__proto__\<close>, which returns the prototype object
  itself, and eleven functions. So the value read under a key, and then stored, can be
  a string and not only a number.
\<close>

datatype propval = PUndefined | PNum jsnum | PStr jsstring | PFun jsstring | PObjectPrototype

type_synonym obj = "(jsstring \<times> propval) list"

definition protoFuncoes :: "jsstring list" where
  "protoFuncoes =
     map U [''constructor'', ''__defineGetter__'', ''__defineSetter__'', ''hasOwnProperty'',
            ''__lookupGetter__'', ''__lookupSetter__'', ''isPrototypeOf'',
            ''propertyIsEnumerable'', ''toString'', ''valueOf'', ''toLocaleString'']"

text \<open>A name that \<open>Object.prototype\<close> defines.\<close>

definition herdado :: "jsstring \<Rightarrow> bool" where
  "herdado k = (k = U ''__proto__'' \<or> k \<in> set protoFuncoes)"

text \<open>
  \<open>map[k]\<close>: the own property, else the inherited one (a function is named by its
  key), else \<open>undefined\<close>.
\<close>

definition objGet :: "obj \<Rightarrow> jsstring \<Rightarrow> propval" where
  "objGet m k =
     (case map_of m k of
        Some v \<Rightarrow> v
      | None \<Rightarrow>
          if k = U ''__proto__'' then PObjectPrototype
          else if k \<in> set protoFuncoes then PFun k
          else PUndefined)"

text \<open>An own property is written: an existing key keeps its place, a new key goes last.\<close>

fun objSet :: "obj \<Rightarrow> jsstring \<Rightarrow> propval \<Rightarrow> obj" where
  "objSet [] k v = [(k, v)]"
| "objSet ((k', v') # m) k v = (if k' = k then (k, v) # m else (k', v') # objSet m k v)"

text \<open>
  \<open>map[k] = v\<close> where \<open>v\<close> is a number or a string: under the key \<open>__proto__\<close> the
  inherited setter runs, which ignores a value that is neither an object nor null, so
  no property is created.
\<close>

definition atribuir :: "obj \<Rightarrow> jsstring \<Rightarrow> propval \<Rightarrow> obj" where
  "atribuir m k v = (if k = U ''__proto__'' then m else objSet m k v)"

fun ptruthy :: "propval \<Rightarrow> bool" where
  "ptruthy PUndefined = False"
| "ptruthy (PNum n) = num_truthy n"
| "ptruthy (PStr s) = (s \<noteq> [])"
| "ptruthy (PFun f) = True"
| "ptruthy PObjectPrototype = True"

text \<open>\<open>x || 0\<close> on a value read from the object.\<close>

definition pOrZero :: "propval \<Rightarrow> propval" where
  "pOrZero x = (if ptruthy x then x else PNum (Fin 0))"

text \<open>
  The conversion of a value to a primitive: a function converts to its source text
  (which depends on the engine, and is a parameter), the prototype object to
  \<open>[object Object]\<close>.
\<close>

fun primitivo :: "(jsstring \<Rightarrow> jsstring) \<Rightarrow> propval \<Rightarrow> propval" where
  "primitivo ft (PFun f) = PStr (ft f)"
| "primitivo ft PObjectPrototype = PStr (U ''[object Object]'')"
| "primitivo ft x = x"

text \<open>
  \<open>x + v\<close> where \<open>v\<close> is a number: the sum of two numbers, or the concatenation of a
  string and the number's text.
\<close>

definition mais :: "(jsnum \<Rightarrow> jsstring) \<Rightarrow> (jsstring \<Rightarrow> jsstring) \<Rightarrow> propval \<Rightarrow> jsnum \<Rightarrow> propval" where
  "mais ns ft x v =
     (case primitivo ft x of
        PStr s \<Rightarrow> PStr (s @ ns v)
      | PNum a \<Rightarrow> PNum (jadd a v)
      | _ \<Rightarrow> PNum NaN)"

text \<open>
  The order in which \<open>Object.keys\<close> lists the keys of an object: first the keys that
  are array indices (canonical decimal numerals below \<open>2^32 - 1\<close>) in ascending numeric
  order, then the other keys in the order of their creation.
\<close>

definition isDigit :: "16 word \<Rightarrow> bool" where
  "isDigit c = (0x30 \<le> c \<and> c \<le> 0x39)"

definition decVal :: "jsstring \<Rightarrow> nat" where
  "decVal s = foldl (\<lambda>n c. 10 * n + (unat c - 48)) 0 s"

definition isArrayIndex :: "jsstring \<Rightarrow> bool" where
  "isArrayIndex s = (s \<noteq> [] \<and> list_all isDigit s \<and> (length s = 1 \<or> hd s \<noteq> 0x30) \<and>
                     decVal s < 2 ^ 32 - 1)"

definition Object_keys :: "obj \<Rightarrow> jsstring list" where
  "Object_keys m =
     sort_key decVal (filter isArrayIndex (map fst m)) @
     filter (\<lambda>k. \<not> isArrayIndex k) (map fst m)"

definition Nao_informada :: jsstring where
  "Nao_informada = U (''N'' @ [CHR 0xE3] @ ''o informada'')"

definition Nenhuma :: jsstring where
  "Nenhuma = U ''Nenhuma''"

text \<open>The key under which an entry is counted: \<open>item.contaRazao || "Nao informada"\<close>.\<close>

definition contaKey :: "(jsnum \<Rightarrow> jsstring) \<Rightarrow> Entry \<Rightarrow> jsstring" where
  "contaKey ns item = ToString ns (js_or (contaRazao item) (JStr Nao_informada))"

definition contaMaisUsada ::
  "(jsnum \<Rightarrow> jsstring) \<Rightarrow> (jsstring \<Rightarrow> jsstring) \<Rightarrow> Entry list \<Rightarrow> obj" where
  "contaMaisUsada ns ft dat =
     foldl (\<lambda>m item. atribuir m (contaKey ns item)
                        (mais ns ft (pOrZero (objGet m (contaKey ns item))) (valorFinal item)))
       [] dat"

text \<open>The order of strings: by code units, a proper prefix being smaller.\<close>

fun strMenor :: "jsstring \<Rightarrow> jsstring \<Rightarrow> bool" where
  "strMenor [] [] = False"
| "strMenor [] (y # ys) = True"
| "strMenor (x # xs) [] = False"
| "strMenor (x # xs) (y # ys) = (x < y \<or> (x = y \<and> strMenor xs ys))"

text \<open>The conversion to a number of a primitive read from the object.\<close>

fun pNumber :: "(jsstring \<Rightarrow> jsnum) \<Rightarrow> propval \<Rightarrow> jsnum" where
  "pNumber sn (PNum n) = n"
| "pNumber sn (PStr s) = sn s"
| "pNumber sn x = NaN"

text \<open>
  \<open>x > y\<close> on values read from the object: two strings are compared as strings, and
  otherwise both sides are converted to numbers (\<open>undefined\<close> to NaN).
\<close>

definition pGt ::
  "(jsstring \<Rightarrow> jsnum) \<Rightarrow> (jsstring \<Rightarrow> jsstring) \<Rightarrow> propval \<Rightarrow> propval \<Rightarrow> bool" where
  "pGt sn ft x y =
     (case (primitivo ft x, primitivo ft y) of
        (PStr s, PStr t) \<Rightarrow> strMenor t s
      | (a, b) \<Rightarrow> jgt (pNumber sn a) (pNumber sn b))"

text \<open>The reducer of \<open>contaTop\<close>: the leader \<open>a\<close> stays only if it is strictly greater.\<close>

definition maior ::
  "(jsstring \<Rightarrow> jsnum) \<Rightarrow> (jsstring \<Rightarrow> jsstring) \<Rightarrow> obj \<Rightarrow> jsstring \<Rightarrow> jsstring \<Rightarrow> jsstring" where
  "maior sn ft m a b = (if pGt sn ft (objGet m a) (objGet m b) then a else b)"

text \<open>
  \<open>contaTop\<close>. The three parameters are the conversions of the language: of a string
  to a number, of a number to a string, and of a built-in function to its source text.
\<close>

definition contaTop ::
  "(jsstring \<Rightarrow> jsnum) \<Rightarrow> (jsnum \<Rightarrow> jsstring) \<Rightarrow> (jsstring \<Rightarrow> jsstring) \<Rightarrow> Entry list \<Rightarrow> jsstring" where
  "contaTop sn ns ft dat =
     foldl (maior sn ft (contaMaisUsada ns ft dat)) Nenhuma
       (Object_keys (contaMaisUsada ns ft dat))"

text \<open>\<open>valorContaTop\<close>: \<open>contaMaisUsada[contaTop] || 0\<close>.\<close>

definition valorContaTop ::
  "(jsstring \<Rightarrow> jsnum) \<Rightarrow> (jsnum \<Rightarrow> jsstring) \<Rightarrow> (jsstring \<Rightarrow> jsstring) \<Rightarrow> Entry list \<Rightarrow> propval" where
  "valorContaTop sn ns ft dat =
     pOrZero (objGet (contaMaisUsada ns ft dat) (contaTop sn ns ft dat))"

section \<open>The text normalizer\<close>

text \<open>
  \<open>limparTexto\<close> chains five string operations. \<open>normalize("NFD")\<close> is the
  language's own canonical decomposition and is a parameter of the model. The three
  regular expressions have no flags besides \<open>g\<close>, so they work on code units.
\<close>

text \<open>The class of the first replacement: U+0300 to U+036F, the combining diacritical marks.\<close>

definition combinante :: "16 word \<Rightarrow> bool" where
  "combinante c = (0x300 \<le> c \<and> c \<le> 0x36F)"

text \<open>The class of white space (the escape s): white space and line terminators.\<close>

definition espaco :: "16 word \<Rightarrow> bool" where
  "espaco c = (c \<in> {0x09, 0x0A, 0x0B, 0x0C, 0x0D, 0x20, 0xA0, 0x1680, 0x2028, 0x2029,
                     0x202F, 0x205F, 0x3000, 0xFEFF} \<or> (0x2000 \<le> c \<and> c \<le> 0x200A))"

text \<open>
  The class whose complement the second replacement deletes: the letters a-z and A-Z,
  the digits, U+00C0 to U+00FF, the seven punctuation marks \<open>, . ! ? ( ) -\<close> and the
  white space.
\<close>

definition permitido :: "16 word \<Rightarrow> bool" where
  "permitido c = ((0x61 \<le> c \<and> c \<le> 0x7A) \<or> (0x41 \<le> c \<and> c \<le> 0x5A) \<or>
                  (0x30 \<le> c \<and> c \<le> 0x39) \<or> (0xC0 \<le> c \<and> c \<le> 0xFF) \<or>
                  c \<in> {0x2C, 0x2E, 0x21, 0x3F, 0x28, 0x29, 0x2D} \<or> espaco c)"

text \<open>The third replacement: every maximal run of white space becomes one space.\<close>

function colapsar :: "jsstring \<Rightarrow> jsstring" where
  "colapsar [] = []"
| "colapsar (c # cs) =
     (if espaco c then 0x20 # colapsar (dropWhile espaco cs) else c # colapsar cs)"
  by pat_completeness auto
termination
  by (relation "measure length") (auto simp: less_Suc_eq_le length_dropWhile_le)

text \<open>\<open>trim()\<close>: white space is removed at both ends.\<close>

definition trim :: "jsstring \<Rightarrow> jsstring" where
  "trim s = rev (dropWhile espaco (rev (dropWhile espaco s)))"

definition limparTexto :: "(jsstring \<Rightarrow> jsstring) \<Rightarrow> jsstring \<Rightarrow> jsstring" where
  "limparTexto nfd texto =
     trim (colapsar (filter permitido (filter (\<lambda>c. \<not> combinante c) (nfd texto))))"

section \<open>The document composer\<close>

text \<open>
  \<open>exportToPDF\<close> drives the jsPDF library. The document is modelled as the list of
  its pages, each page the list of the primitives drawn on it, in the order of the
  calls. The functions of the language and of the libraries that the export calls are
  collected in a record of parameters: the canonical decomposition of a string, the
  conversions of a string to a number, of a number to a string and of a built-in
  function to its source text, \<open>toLocaleString("pt-BR", {style: "currency",
  currency: "BRL"})\<close>, \<open>toFixed(2)\<close>, \<open>pdf.splitTextToSize(text, 180)\<close> and the
  width of the page. The calls into the libraries are taken to return.
\<close>

record host =
  normalizeNFD :: "jsstring \<Rightarrow> jsstring"
  stringToNumber :: "jsstring \<Rightarrow> jsnum"
  numberToString :: "jsnum \<Rightarrow> jsstring"
  functionToString :: "jsstring \<Rightarrow> jsstring"
  toLocaleBRL :: "jsnum \<Rightarrow> jsstring"
  toFixed2 :: "jsnum \<Rightarrow> jsstring"
  splitTextToSize :: "jsstring \<Rightarrow> jsstring list"
  pageWidth :: jsnum

text \<open>
  A primitive: a line of text at \<open>(x, y)\<close>, a line of text centred on \<open>x\<close> at height
  \<open>y\<close>, or an image at \<open>(x, y)\<close> with its width and height.
\<close>

datatype prim =
  Texto jsstring jsnum jsnum
| TextoCentro jsstring jsnum jsnum
| Imagem jsnum jsnum jsnum jsnum

text \<open>
  The state of the composition: the pages already left, the page being drawn, and the
  vertical cursor \<open>y\<close>.
\<close>

record layout =
  anteriores :: "prim list list"
  atual :: "prim list"
  cursor :: jsnum

definition paginas :: "layout \<Rightarrow> prim list list" where
  "paginas l = anteriores l @ [atual l]"

text \<open>\<open>pdf.addPage()\<close>.\<close>

definition addPage :: "layout \<Rightarrow> layout" where
  "addPage l = l\<lparr> anteriores := anteriores l @ [atual l], atual := [] \<rparr>"

text \<open>\<open>pdf.text\<close> and \<open>pdf.addImage\<close>: a primitive is drawn on the current page.\<close>

definition desenhar :: "prim \<Rightarrow> layout \<Rightarrow> layout" where
  "desenhar p l = l\<lparr> atual := atual l @ [p] \<rparr>"

text \<open>
  \<open>addImage(ref)\<close>. The argument is \<open>None\<close> when \<open>ref.current\<close> is null (the chart
  was never rendered), and otherwise the width and the height of the captured image.
\<close>

definition addImage :: "(jsnum \<times> jsnum) option \<Rightarrow> layout \<Rightarrow> layout" where
  "addImage r l =
     (case r of
        None \<Rightarrow> l
      | Some (w, h) \<Rightarrow>
          (let pdfHeight = jdiv (jmul h (Fin 180)) w
           in (desenhar (Imagem (Fin 15) (cursor l) (Fin 180) pdfHeight) l)
                \<lparr> cursor := jadd (cursor l) (jadd pdfHeight (Fin 10)) \<rparr>))"

text \<open>The three chart containers, in the order in which the export captures them.\<close>

record refs =
  pieRef :: "(jsnum \<times> jsnum) option"
  barRef :: "(jsnum \<times> jsnum) option"
  contaRef :: "(jsnum \<times> jsnum) option"

text \<open>
  The body of the inner loop, shared by the narrative and the consolidated text: the
  overflow test, then the line, then the line height.
\<close>

definition colocarLinha :: "layout \<Rightarrow> jsstring \<Rightarrow> layout" where
  "colocarLinha l t =
     (let l1 = (if jgt (cursor l) (Fin 280) then (addPage l)\<lparr> cursor := Fin 20 \<rparr> else l)
      in (desenhar (Texto t (Fin 15) (cursor l1)) l1)\<lparr> cursor := jadd (cursor l1) (Fin 7) \<rparr>)"

text \<open>The two nested \<open>forEach\<close> over the fragments and over their wrapped lines.\<close>

definition colocarTexto :: "host \<Rightarrow> layout \<Rightarrow> jsstring list \<Rightarrow> layout" where
  "colocarTexto h l texto =
     foldl (\<lambda>l linha. foldl colocarLinha l (splitTextToSize h linha)) l texto"

text \<open>
  A call \<open>limparTexto(v)\<close> on a run-time value: \<open>v.normalize\<close> is a function only
  when \<open>v\<close> is a string, and the call throws a TypeError otherwise.
\<close>

datatype erro = TypeError

definition chamarLimparTexto :: "host \<Rightarrow> jsval \<Rightarrow> erro + jsstring" where
  "chamarLimparTexto h v =
     (case v of JStr s \<Rightarrow> Inr (limparTexto (normalizeNFD h) s) | _ \<Rightarrow> Inl TypeError)"

definition nao_informada :: jsstring where
  "nao_informada = U (''n'' @ [CHR 0xE3] @ ''o informada'')"

text \<open>\<open>economiaPerc\<close> of an entry.\<close>

definition economiaPerc :: "Entry \<Rightarrow> jsnum" where
  "economiaPerc item =
     (if jgt (valorInicial item) (Fin 0)
      then jmul (jdiv (jsub (valorInicial item) (valorFinal item)) (valorInicial item)) (Fin 100)
      else Fin 0)"

text \<open>The four fragments \<open>texto\<close> of an entry, or the error thrown while building them.\<close>

definition textoItem :: "host \<Rightarrow> Entry \<Rightarrow> erro + jsstring list" where
  "textoItem h item =
     (case chamarLimparTexto h (fornecedor item) of
        Inl e \<Rightarrow> Inl e
      | Inr f \<Rightarrow>
     (case chamarLimparTexto h (js_or (area item) (JStr nao_informada)) of
        Inl e \<Rightarrow> Inl e
      | Inr a \<Rightarrow>
     (case chamarLimparTexto h (js_or (contaRazao item) (JStr nao_informada)) of
        Inl e \<Rightarrow> Inl e
      | Inr c \<Rightarrow>
          Inr [U (''Analisou-se a negocia'' @ [CHR 0xE7] @ [CHR 0xE3] @ ''o referente a '') @ f @ U ''.'',
               U (''Na '' @ [CHR 0xE1] @ ''rea '') @ a @ U ('', vinculada '' @ [CHR 0xE0] @ '' conta '') @ c @ U '','',
               U ''em '' @
                 ToString (numberToString h) (js_or (mesAno item) (JStr (U (''per'' @ [CHR 0xED] @ ''odo n'' @ [CHR 0xE3] @ ''o informado'')))) @
                 U ''.'',
               U ''O valor inicialmente cotado foi de '' @ toLocaleBRL h (valorInicial item) @
                 U '', enquanto o valor final ficou em '' @ toLocaleBRL h (valorFinal item) @
                 U '', gerando uma economia de '' @
                 toLocaleBRL h (jsub (valorInicial item) (valorFinal item)) @
                 U '' ('' @ toFixed2 h (economiaPerc item) @ U ''%).''])))"

text \<open>The two fragments \<open>consolidado\<close>.\<close>

definition consolidado :: "host \<Rightarrow> Entry list \<Rightarrow> jsstring list" where
  "consolidado h dat =
     [U ''No consolidado geral, o valor total cotado foi de '' @ toLocaleBRL h (totalInicial dat) @
        U '', enquanto o valor final negociado foi de '' @ toLocaleBRL h (totalFinal dat) @
        U ''.'',
      U ''Esse resultado representou uma economia absoluta de '' @
        toLocaleBRL h (jsub (totalInicial dat) (totalFinal dat)) @
        U '', equivalente a '' @ toFixed2 h (economiaGeralPerc dat) @
        U ''%. A conta mais utilizada foi '' @ contaTop (stringToNumber h) (numberToString h) (functionToString h) dat @ U ''.'']"

text \<open>
  The \<open>forEach\<close> over the record set: the fragments of an entry are placed, then the
  cursor moves 5 further. An error thrown for an entry ends the export.
\<close>

fun narrativa :: "host \<Rightarrow> layout \<Rightarrow> Entry list \<Rightarrow> erro + layout" where
  "narrativa h l [] = Inr l"
| "narrativa h l (item # rest) =
     (case textoItem h item of
        Inl e \<Rightarrow> Inl e
      | Inr texto \<Rightarrow>
          narrativa h
            ((colocarTexto h l texto)\<lparr> cursor := jadd (cursor (colocarTexto h l texto)) (Fin 5) \<rparr>)
            rest)"

text \<open>The cover: the title at \<open>y = 10\<close>, then the three charts from \<open>y = 20\<close>.\<close>

definition capa :: "host \<Rightarrow> refs \<Rightarrow> layout" where
  "capa h r =
     addImage (contaRef r) (addImage (barRef r) (addImage (pieRef r)
       \<lparr> anteriores = [],
         atual = [TextoCentro (U (''Relat'' @ [CHR 0xF3] @ ''rio de Negocia'' @ [CHR 0xE7] @ [CHR 0xF5] @ ''es'')) (jdiv (pageWidth h) (Fin 2)) (Fin 10)],
         cursor = jadd (Fin 10) (Fin 10) \<rparr>))"

text \<open>The new page of the analysis, its title at \<open>y = 20\<close>, the cursor at 30.\<close>

definition inicioAnalise :: "host \<Rightarrow> layout \<Rightarrow> layout" where
  "inicioAnalise h l =
     (desenhar (TextoCentro (U (''An'' @ [CHR 0xE1] @ ''lise do Relat'' @ [CHR 0xF3] @ ''rio'')) (jdiv (pageWidth h) (Fin 2)) (Fin 20))
        ((addPage l)\<lparr> cursor := Fin 20 \<rparr>))\<lparr> cursor := jadd (Fin 20) (Fin 10) \<rparr>"

text \<open>
  \<open>exportToPDF\<close>: the pages that \<open>pdf.save\<close> writes, or the error that ended the
  export before it.
\<close>

definition exportToPDF :: "host \<Rightarrow> refs \<Rightarrow> Entry list \<Rightarrow> erro + prim list list" where
  "exportToPDF h r dat =
     (case narrativa h (inicioAnalise h (capa h r)) dat of
        Inl e \<Rightarrow> Inl e
      | Inr l \<Rightarrow>
          Inr (paginas (colocarTexto h (l\<lparr> cursor := jadd (cursor l) (Fin 5) \<rparr>)
                          (consolidado h dat))))"

section \<open>Observations of a document\<close>

text \<open>The lines of running text among a list of primitives, in the order drawn.\<close>

fun linhasDe :: "prim list \<Rightarrow> jsstring list" where
  "linhasDe [] = []"
| "linhasDe (Texto t x y # ps) = t # linhasDe ps"
| "linhasDe (p # ps) = linhasDe ps"

text \<open>
  A line of running text lies within the margins when it is drawn at \<open>x = 15\<close> and at a
  finite height between the top margin 20 and the bottom margin 280.
\<close>

fun dentroDasMargens :: "prim \<Rightarrow> bool" where
  "dentroDasMargens (Texto t x (Fin v)) = (x = Fin 15 \<and> 20 \<le> v \<and> v \<le> 280)"
| "dentroDasMargens (Texto t x y) = False"
| "dentroDasMargens p = True"

section \<open>Predicates used in the proofs\<close>


text \<open>
  The invariant of the text placement. The cursor is finite and not above the top
  margin; every line drawn so far lies within the margins; every page after the first
  page of the analysis starts with a line at the top margin; the cover is behind and
  holds no line of running text; and while the first page of the analysis is the current
  page, the cursor is at least 30 plus 7 for each of its lines, and it holds at most 36
  lines.
\<close>

definition textoInv :: "layout \<Rightarrow> bool" where
  "textoInv l =
     ((cursor l = PInf \<or>
       (\<exists>v. cursor l = Fin v \<and> 20 \<le> v \<and>
            (length (anteriores l) = 1 \<longrightarrow>
               30 + 7 * of_nat (length (linhasDe (atual l))) \<le> v))) \<and>
      (\<forall>p \<in> set (concat (paginas l)). dentroDasMargens p) \<and>
      (\<forall>pg \<in> set (drop 2 (paginas l)). \<exists>t rest. pg = Texto t (Fin 15) (Fin 20) # rest) \<and>
      anteriores l \<noteq> [] \<and> linhasDe (hd (anteriores l)) = [] \<and>
      (length (anteriores l) = 1 \<longrightarrow> length (linhasDe (atual l)) \<le> 36))"

text \<open>
  Two states of the composition that differ at most in their first page: the relation
  between two exports of the same record set with different charts.
\<close>

definition mesmoTexto :: "layout \<Rightarrow> layout \<Rightarrow> bool" where
  "mesmoTexto l l' = (anteriores l \<noteq> [] \<and> anteriores l' \<noteq> [] \<and>
     tl (anteriores l) = tl (anteriores l') \<and> atual l = atual l' \<and> cursor l = cursor l')"

text \<open>
  The running sum of a category as the reducer of \<open>contaMaisUsada\<close> computes it: at
  each entry of the category, \<open>(sum || 0) + valorFinal\<close>.
\<close>

definition somaCategoria :: "(jsnum \<Rightarrow> jsstring) \<Rightarrow> Entry list \<Rightarrow> jsstring \<Rightarrow> jsnum" where
  "somaCategoria ns dat k =
     foldl (\<lambda>acc v. jadd (orZero acc) v) (Fin 0)
       (map valorFinal (filter (\<lambda>e. contaKey ns e = k) dat))"

text \<open>No partial sum of a list of rationals, added from the left, is rounded.\<close>

fun somasExatas :: "rat \<Rightarrow> rat list \<Rightarrow> bool" where
  "somasExatas acc [] = True"
| "somasExatas acc (x # xs) = (binary64 (acc + x) \<and> somasExatas (acc + x) xs)"

section \<open>Example values\<close>

text \<open>
  Concrete inputs on which the model is evaluated. The examples hold strings in their
  text fields, numbers or plain words in their numeric cells, and categories that
  \<open>Object.prototype\<close> does not define, so the conversions of the language are passed
  as the following functions: the first reads a non-empty string of decimal digits as
  its value and every other string as NaN; the other two (of a number to a string, of a
  built-in function to its source text) are never applied.
\<close>

definition digitosParaNumero :: "jsstring \<Rightarrow> jsnum" where
  "digitosParaNumero s =
     (if s \<noteq> [] \<and> list_all isDigit s then Fin (of_nat (decVal s)) else NaN)"

definition ns_exemplo :: "jsnum \<Rightarrow> jsstring" where
  "ns_exemplo n = []"

definition ft_exemplo :: "jsstring \<Rightarrow> jsstring" where
  "ft_exemplo f = []"

definition entrada :: "string \<Rightarrow> rat \<Rightarrow> rat \<Rightarrow> string \<Rightarrow> Entry" where
  "entrada f q v c =
     \<lparr> fornecedor = JStr (U f), valorInicial = Fin q, valorFinal = Fin v,
       contaRazao = JStr (U c), area = JStr [], mesAno = JStr [], periodo = JStr [] \<rparr>"

definition linha :: "jsval \<Rightarrow> jsval \<Rightarrow> jsval \<Rightarrow> Row" where
  "linha f q v =
     \<lparr> Fornecedor = f, Valor_Cotado = q, Valor_Final = v, Conta_Razao = JUndefined,
       Area = JUndefined, Mes_Ano = JUndefined, Periodo = JUndefined \<rparr>"

definition formCompleto :: App where
  "formCompleto =
     \<lparr> data = [entrada ''C -> D'' 500 500 ''X''],
       fornecedorInicial = U ''A'', valorInicialF = Valor (Fin 1000),
       fornecedorFinal = U ''B'', valorFinalF = Valor (Fin 800), contaRazaoF = U ''X'',
       areaF = U ''Loja'', mes = U ''Janeiro'', ano = U ''2025'', periodoF = U ''Anual'' \<rparr>"

text \<open>Three categories, the first two with equal sums.\<close>

definition dadosEmpate :: "Entry list" where
  "dadosEmpate =
     [entrada ''F1'' 20 10 ''A'', entrada ''F2'' 30 10 ''B'', entrada ''F3'' 9 5 ''C'']"

text \<open>Entries whose optional fields are absent or empty, and a negative value.\<close>

definition dadosOpcionais :: "Entry list" where
  "dadosOpcionais =
     [\<lparr> fornecedor = JStr (U ''A -> B''), valorInicial = Fin 1000, valorFinal = Fin 800,
        contaRazao = JUndefined, area = JStr (U ''Loja''), mesAno = JStr [],
        periodo = JUndefined \<rparr>,
      entrada ''C -> D'' 0 (- 3) ''X'']"

text \<open>
  The parameters of the export used in the examples: the strings of the examples are
  ASCII, which canonical decomposition leaves unchanged; every number is rendered as
  the same fixed text and every fragment is taken to fit on one line, which does not
  matter to the facts the examples show; the page is 210 wide.
\<close>

definition host_exemplo :: host where
  "host_exemplo =
     \<lparr> normalizeNFD = (\<lambda>s. s), stringToNumber = digitosParaNumero,
       numberToString = ns_exemplo, functionToString = ft_exemplo,
       toLocaleBRL = (\<lambda>n. U ''R$ 0,00''), toFixed2 = (\<lambda>n. U ''0.00''),
       splitTextToSize = (\<lambda>t. [t]), pageWidth = Fin 210 \<rparr>"

text \<open>No chart was rendered; and the three charts, each 900 by 300 pixels.\<close>

definition semGraficos :: refs where
  "semGraficos = \<lparr> pieRef = None, barRef = None, contaRef = None \<rparr>"

definition tresGraficos :: refs where
  "tresGraficos =
     \<lparr> pieRef = Some (Fin 900, Fin 300), barRef = Some (Fin 900, Fin 300),
       contaRef = Some (Fin 900, Fin 300) \<rparr>"

text \<open>Ten entries: forty fragments of narrative.\<close>

definition dezEntradas :: "Entry list" where
  "dezEntradas =
     [entrada ''A -> B'' 1000 800 ''X'', entrada ''C -> D'' 500 500 ''X'',
      entrada ''E -> F'' 300 200 ''Y'', entrada ''G -> H'' 100 150 ''Y'',
      entrada ''I -> J'' 700 650 ''Z'', entrada ''K -> L'' 900 100 ''Z'',
      entrada ''M -> N'' 250 250 ''X'', entrada ''O -> P'' 4000 3999 ''W'',
      entrada ''Q -> R'' 60 30 ''W'', entrada ''S -> T'' 10 9 ''V'']"

section \<open>Properties of the rounding\<close>

lemma arredondaPar_of_int: "arredondaPar (of_int m) = m"
  by (simp add: arredondaPar_def)

lemma arredondaPar_ge: "of_int m \<le> y \<Longrightarrow> m \<le> arredondaPar y"
proof -
  assume "of_int m \<le> y"
  then have "m \<le> \<lfloor>y\<rfloor>" by (simp add: le_floor_iff)
  then show ?thesis by (auto simp: arredondaPar_def Let_def)
qed

lemma expoente_ge1:
  assumes "1 \<le> x"
  shows "0 \<le> expoente x" "2 ^ nat (expoente x) \<le> x" "x < 2 ^ nat (expoente x + 1)"
proof -
  have f: "0 < \<lfloor>x\<rfloor>" using assms by simp
  have e: "expoente x = bitlen \<lfloor>x\<rfloor> - 1" using assms by (simp add: expoente_def)
  have b1: "1 \<le> bitlen \<lfloor>x\<rfloor>" using f bitlen_ge_iff_power[of 1 "\<lfloor>x\<rfloor>"] by simp
  show "0 \<le> expoente x" using b1 e by simp
  from bitlen_bounds[OF f] have lo: "2 ^ nat (bitlen \<lfloor>x\<rfloor> - 1) \<le> \<lfloor>x\<rfloor>"
    and hi: "\<lfloor>x\<rfloor> < 2 ^ nat (bitlen \<lfloor>x\<rfloor>)" by auto
  have "(of_int (2 ^ nat (bitlen \<lfloor>x\<rfloor> - 1)) :: rat) \<le> of_int \<lfloor>x\<rfloor>"
    using lo of_int_le_iff by blast
  also have "\<dots> \<le> x" by simp
  finally show "2 ^ nat (expoente x) \<le> x" by (simp add: e)
  have "\<lfloor>x\<rfloor> + 1 \<le> 2 ^ nat (bitlen \<lfloor>x\<rfloor>)" using hi by simp
  then have "(of_int (\<lfloor>x\<rfloor> + 1) :: rat) \<le> of_int (2 ^ nat (bitlen \<lfloor>x\<rfloor>))"
    using of_int_le_iff by blast
  moreover have "x < of_int (\<lfloor>x\<rfloor> + 1)" by linarith
  ultimately have "x < of_int (2 ^ nat (bitlen \<lfloor>x\<rfloor>))" by linarith
  then show "x < 2 ^ nat (expoente x + 1)" by (simp add: e)
qed


lemma pow2_split: "k \<le> n \<Longrightarrow> (2::rat) ^ n = 2 ^ k * 2 ^ (n - k)"
  by (metis le_add_diff_inverse power_add)

lemma of_int_le_pow2: "c \<le> 2 ^ n \<Longrightarrow> (of_int c :: rat) \<le> 2 ^ n"
  by (metis of_int_le_iff of_int_numeral of_int_power)

lemma of_int_less_pow2: "c < 2 ^ n \<Longrightarrow> (of_int c :: rat) < 2 ^ n"
  by (metis of_int_less_iff of_int_numeral of_int_power)

lemma pot2_nonneg: "0 \<le> k \<Longrightarrow> pot2 k = 2 ^ nat k"
  by (simp add: pot2_def)

lemma pot2_nonpos: "k \<le> 0 \<Longrightarrow> pot2 k = 1 / 2 ^ nat (- k)"
  by (cases "k = 0") (simp_all add: pot2_def)

lemma round64pos_unfold:
  "1 \<le> x \<Longrightarrow> round64pos x =
     (if pot2 1024 \<le> of_int (arredondaPar (x / pot2 (expoente x - 52))) * pot2 (expoente x - 52)
      then PInf
      else Fin (of_int (arredondaPar (x / pot2 (expoente x - 52))) * pot2 (expoente x - 52)))"
  using expoente_ge1(1)[of x] by (simp add: round64pos_def Let_def max_def)

lemma scaled_lower_high:
  fixes x :: rat
  assumes "52 \<le> n" "2 ^ n \<le> x"
  shows "(2::rat) ^ n \<le> of_int (arredondaPar (x / 2 ^ (n - 52))) * 2 ^ (n - 52)"
proof -
  let ?q = "(2::rat) ^ (n - 52)"
  have qpos: "0 < ?q" by simp
  have split: "(2::rat) ^ n = 2 ^ 52 * ?q" using assms(1) by (rule pow2_split)
  then have "(2::rat) ^ 52 * ?q \<le> x" using assms(2) by (simp only:)
  then have "(2::rat) ^ 52 \<le> x / ?q" using qpos by (simp only: pos_le_divide_eq)
  then have "of_int (2 ^ 52) \<le> x / ?q" by (simp only: of_int_power of_int_numeral)
  then have "2 ^ 52 \<le> arredondaPar (x / ?q)" by (rule arredondaPar_ge)
  then have "(of_int (2 ^ 52) :: rat) \<le> of_int (arredondaPar (x / ?q))"
    by (simp only: of_int_le_iff)
  then have "(2::rat) ^ 52 \<le> of_int (arredondaPar (x / ?q))"
    by (simp only: of_int_power of_int_numeral)
  then have "(2::rat) ^ 52 * ?q \<le> of_int (arredondaPar (x / ?q)) * ?q"
    using qpos by (simp only: mult_le_cancel_right_pos)
  then show ?thesis by (simp only: split)
qed

lemma scaled_lower_low:
  fixes x :: rat
  assumes "of_int c \<le> x"
  shows "(of_int c :: rat) \<le> of_int (arredondaPar (x / (1 / 2 ^ m))) * (1 / 2 ^ m)"
proof -
  let ?Q = "(2::rat) ^ m"
  have Qpos: "0 < ?Q" by simp
  have "of_int c * ?Q \<le> x * ?Q" using assms Qpos by (simp only: mult_le_cancel_right_pos)
  moreover have "of_int (c * 2 ^ m) = of_int c * ?Q" by simp
  moreover have "x / (1 / ?Q) = x * ?Q" by simp
  ultimately have "of_int (c * 2 ^ m) \<le> x / (1 / ?Q)" by (simp only:)
  then have "c * 2 ^ m \<le> arredondaPar (x / (1 / ?Q))" by (rule arredondaPar_ge)
  then have "(of_int (c * 2 ^ m) :: rat) \<le> of_int (arredondaPar (x / (1 / ?Q)))"
    by (simp only: of_int_le_iff)
  then have "of_int c * ?Q \<le> of_int (arredondaPar (x / (1 / ?Q)))" by simp
  then have "of_int c \<le> of_int (arredondaPar (x / (1 / ?Q))) / ?Q"
    using Qpos by (simp only: pos_le_divide_eq)
  then show ?thesis by simp
qed

lemma round64pos_lower:
  assumes c: "1 \<le> c" "c \<le> 2 ^ 53" and x: "of_int c \<le> x"
  shows "round64pos x = PInf \<or> (\<exists>r. round64pos x = Fin r \<and> of_int c \<le> r)"
proof -
  have "(1::rat) \<le> of_int c" using c(1) by simp
  then have x1: "1 \<le> x" using x by linarith
  let ?e = "expoente x"
  let ?q = "pot2 (?e - 52)"
  let ?r = "of_int (arredondaPar (x / ?q)) * ?q"
  have e0: "0 \<le> ?e" and lo: "2 ^ nat ?e \<le> x" using expoente_ge1[OF x1] by auto
  have "of_int c \<le> ?r"
  proof (cases "53 \<le> ?e")
    case True
    then have q: "?q = 2 ^ (nat ?e - 52)"
      by (simp only: pot2_nonneg) (simp add: pot2_nonneg nat_diff_distrib)
    have "52 \<le> nat ?e" using True by simp
    from scaled_lower_high[OF this lo] have "2 ^ nat ?e \<le> ?r" by (simp only: q)
    moreover have "(2::rat) ^ 53 \<le> 2 ^ nat ?e"
      using True by (intro power_increasing) auto
    moreover have "(of_int c :: rat) \<le> 2 ^ 53" using c(2) by (rule of_int_le_pow2)
    ultimately show ?thesis by linarith
  next
    case False
    then have q: "?q = 1 / 2 ^ nat (52 - ?e)"
      using pot2_nonpos[of "?e - 52"] by simp
    show ?thesis using scaled_lower_low[OF x, of "nat (52 - ?e)"] by (simp only: q)
  qed
  then show ?thesis unfolding round64pos_unfold[OF x1] by (cases "pot2 1024 \<le> ?r") simp_all
qed

lemma round64pos_int:
  assumes c: "1 \<le> c" "c < 2 ^ 53"
  shows "round64pos (of_int c) = Fin (of_int c)"
proof -
  let ?x = "of_int c :: rat"
  have x1: "1 \<le> ?x" using c(1) by simp
  let ?e = "expoente ?x"
  let ?q = "pot2 (?e - 52)"
  let ?r = "of_int (arredondaPar (?x / ?q)) * ?q"
  have e0: "0 \<le> ?e" and lo: "2 ^ nat ?e \<le> ?x" using expoente_ge1[OF x1] by auto
  have mx: "max ?e (- 1022) = ?e" using e0 by simp
  have r: "round64pos ?x = (if pot2 1024 \<le> ?r then PInf else Fin ?r)"
    by (simp add: round64pos_def Let_def mx)
  have "(of_int c :: rat) < of_int (2 ^ 53)" using c(2) of_int_less_iff by blast
  then have cle: "?x < 2 ^ 53" by simp
  have e52: "?e \<le> 52"
  proof (rule ccontr)
    assume "\<not> ?e \<le> 52"
    then have "(2::rat) ^ 53 \<le> 2 ^ nat ?e" by (intro power_increasing) auto
    then show False using lo cle by linarith
  qed
  have q: "?q = 1 / 2 ^ nat (52 - ?e)"
    using e0 e52 by (cases "?e = 52") (auto simp: pot2_def)
  have "?x / ?q = of_int (c * 2 ^ nat (52 - ?e))" by (simp add: q)
  then have "arredondaPar (?x / ?q) = c * 2 ^ nat (52 - ?e)"
    by (simp only: arredondaPar_of_int)
  then have rx: "?r = ?x" by (simp add: q)
  have "(2::rat) ^ 53 \<le> 2 ^ 1024" by (intro power_increasing) auto
  then have "\<not> pot2 1024 \<le> ?x" using cle unfolding pot2_def by auto
  then show ?thesis using r rx by simp
qed

lemma round64_int:
  assumes "\<bar>c\<bar> < 2 ^ 53"
  shows "round64 (of_int c) = Fin (of_int c)"
proof -
  consider "c = 0" | "1 \<le> c" | "c \<le> - 1" by linarith
  then show ?thesis
  proof cases
    case 1
    then show ?thesis by (simp add: round64_def)
  next
    case 2
    then show ?thesis using assms round64pos_int[of c] by (simp add: round64_def)
  next
    case 3
    then have "round64pos (of_int (- c)) = Fin (of_int (- c))"
      using assms round64pos_int[of "- c"] by simp
    then show ?thesis using 3 by (simp add: round64_def)
  qed
qed

lemma round64_lower:
  assumes "1 \<le> c" "c \<le> 2 ^ 53" "of_int c \<le> x"
  shows "round64 x = PInf \<or> (\<exists>r. round64 x = Fin r \<and> of_int c \<le> r)"
proof -
  have "(0::rat) < of_int c" using assms(1) by simp
  then have "0 < x" using assms(3) by linarith
  then show ?thesis using round64pos_lower[OF assms] by (simp add: round64_def)
qed


lemma round64_numeral [simp]:
  "numeral k < (2 ^ 53 :: int) \<Longrightarrow> round64 (numeral k) = Fin (numeral k)"
  "numeral k < (2 ^ 53 :: int) \<Longrightarrow> round64 (- numeral k) = Fin (- numeral k)"
  "round64 0 = Fin 0" "round64 1 = Fin 1" "round64 (- 1) = Fin (- 1)"
  using round64_int[of "numeral k"] round64_int[of "- numeral k"] round64_int[of 1]
    round64_int[of "- 1"]
  by (simp_all add: round64_def)

text \<open>A sum at or above \<open>2^1024\<close> overflows to infinity.\<close>

lemma round64_overflow:
  assumes "(2::rat) ^ 1024 \<le> x"
  shows "round64 x = PInf"
proof -
  have "(1::rat) \<le> 2 ^ 1024" by (rule one_le_power) simp
  then have x1: "1 \<le> x" using assms by linarith
  let ?e = "expoente x"
  let ?q = "pot2 (?e - 52)"
  let ?r = "of_int (arredondaPar (x / ?q)) * ?q"
  have e0: "0 \<le> ?e" and lo: "2 ^ nat ?e \<le> x" and hi: "x < 2 ^ nat (?e + 1)"
    using expoente_ge1[OF x1] by auto
  have e: "1024 \<le> ?e"
  proof (rule ccontr)
    assume "\<not> 1024 \<le> ?e"
    then have "nat (?e + 1) \<le> 1024" by simp
    then have "(2::rat) ^ nat (?e + 1) \<le> 2 ^ 1024" by (intro power_increasing) auto
    then show False using hi assms by linarith
  qed
  then have q: "?q = 2 ^ (nat ?e - 52)"
    by (simp add: pot2_nonneg nat_diff_distrib)
  have "52 \<le> nat ?e" using e by simp
  from scaled_lower_high[OF this lo] have "2 ^ nat ?e \<le> ?r" by (simp only: q)
  moreover have "(2::rat) ^ 1024 \<le> 2 ^ nat ?e" using e by (intro power_increasing) auto
  moreover have "pot2 1024 = 2 ^ 1024" by (simp add: pot2_def)
  ultimately have "pot2 1024 \<le> ?r" by linarith
  then have "round64pos x = PInf" unfolding round64pos_unfold[OF x1] by simp
  then show ?thesis using x1 by (simp add: round64_def)
qed

text \<open>The powers of two up to \<open>2^1023\<close> are binary64 values.\<close>

lemma round64_pow2:
  assumes "n \<le> 1023"
  shows "round64 ((2::rat) ^ n) = Fin (2 ^ n)"
proof -
  let ?x = "(2::rat) ^ n"
  have x1: "1 \<le> ?x" by (rule one_le_power) simp
  have fl: "\<lfloor>?x\<rfloor> = 2 ^ n" by (metis floor_of_int of_int_numeral of_int_power)
  have "bitlen (2 ^ n) = int n + 1" using bitlen_twopow_add_eq[of 0 n] by simp
  then have e: "expoente ?x = int n" using x1 by (simp add: expoente_def fl)
  let ?q = "pot2 (int n - 52)"
  let ?r = "of_int (arredondaPar (?x / ?q)) * ?q"
  have rx: "?r = ?x"
  proof (cases "52 \<le> n")
    case True
    then have q: "?q = 2 ^ (n - 52)" by (simp add: pot2_nonneg nat_diff_distrib)
    have split: "?x = 2 ^ 52 * 2 ^ (n - 52)" using True by (rule pow2_split)
    have "?x / 2 ^ (n - 52) = (2::rat) ^ 52" by (simp only: split) simp
    then have "?x / 2 ^ (n - 52) = of_int (2 ^ 52)" by (simp only: of_int_power of_int_numeral)
    then have "arredondaPar (?x / 2 ^ (n - 52)) = 2 ^ 52" by (simp only: arredondaPar_of_int)
    then have "of_int (arredondaPar (?x / 2 ^ (n - 52))) * (2::rat) ^ (n - 52) = 2 ^ 52 * 2 ^ (n - 52)"
      by (simp only: of_int_power of_int_numeral)
    then show ?thesis by (simp only: q split[symmetric])
  next
    case False
    then have q: "?q = 1 / 2 ^ (52 - n)"
      using pot2_nonpos[of "int n - 52"] by (simp add: nat_diff_distrib)
    have "?x / (1 / 2 ^ (52 - n)) = of_int (2 ^ n * 2 ^ (52 - n))" by simp
    then have "arredondaPar (?x / (1 / 2 ^ (52 - n))) = 2 ^ n * 2 ^ (52 - n)"
      by (simp only: arredondaPar_of_int)
    then have "of_int (arredondaPar (?x / (1 / 2 ^ (52 - n)))) * (1 / (2::rat) ^ (52 - n)) = ?x"
      by simp
    then show ?thesis by (simp only: q)
  qed
  have "?x < 2 ^ 1024" using assms by (intro power_strict_increasing) auto
  then have "\<not> pot2 1024 \<le> ?x" by (simp add: pot2_def)
  then have "round64pos ?x = Fin ?x"
    unfolding round64pos_unfold[OF x1] e by (simp only: rx) simp
  moreover have "0 < ?x" by simp
  ultimately show ?thesis unfolding round64_def by (simp only:) simp
qed

text \<open>Two additions that are not exact: one rounds, one overflows.\<close>

lemma addition_rounds:
  "round64 10000000000000000 = Fin 10000000000000000"
  "jadd (Fin 10000000000000000) (Fin 1) = Fin 10000000000000000"
  by code_simp+

lemma addition_overflows: "jadd (Fin (2 ^ 1023)) (Fin (2 ^ 1023)) = PInf"
proof -
  have "(2::rat) ^ 1023 + 2 ^ 1023 = 2 ^ 1024" by simp
  then show ?thesis using round64_overflow[of "2 ^ 1023 + 2 ^ 1023"] by simp
qed

section \<open>The invariant of the numeric fields\<close>

definition semNaN :: "Entry list \<Rightarrow> bool" where
  "semNaN dat = (\<forall>e \<in> set dat. valorInicial e \<noteq> NaN \<and> valorFinal e \<noteq> NaN)"

lemma orZero_not_NaN: "orZero n \<noteq> NaN"
  by (simp add: orZero_def num_truthy_def)

lemma importRow_not_NaN:
  "valorInicial (importRow sn r) \<noteq> NaN \<and> valorFinal (importRow sn r) \<noteq> NaN"
  by (simp add: importRow_def orZero_not_NaN)






lemma handleAdd_accept:
  assumes "aceita s"
  shows "handleAdd s =
     \<lparr> data = data s @ [novaEntrada s], fornecedorInicial = [], valorInicialF = Vazio,
       fornecedorFinal = [], valorFinalF = Vazio, contaRazaoF = [], areaF = [], mes = [],
       ano = [], periodoF = [] \<rparr>"
  using assms by (simp add: handleAdd_def)

lemma handleAdd_reject: "\<not> aceita s \<Longrightarrow> handleAdd s = s"
  by (simp add: handleAdd_def)

section \<open>Properties of manual addition\<close>

text \<open>
  Claim C10. \<open>handleAdd\<close> is atomic over the whole state. When its condition fails the state
  (record set and nine form fields) is returned unchanged. When it holds, exactly one
  entry is appended at the end of the record set, the entries already there keep their
  places, and the nine form fields are all reset to the empty value.
\<close>

theorem handleAdd_atomic:
  "(\<not> aceita s \<longrightarrow> handleAdd s = s) \<and>
   (aceita s \<longrightarrow>
      data (handleAdd s) = data s @ [novaEntrada s] \<and>
      length (data (handleAdd s)) = Suc (length (data s)) \<and>
      take (length (data s)) (data (handleAdd s)) = data s \<and>
      fornecedorInicial (handleAdd s) = [] \<and> valorInicialF (handleAdd s) = Vazio \<and>
      fornecedorFinal (handleAdd s) = [] \<and> valorFinalF (handleAdd s) = Vazio \<and>
      contaRazaoF (handleAdd s) = [] \<and> areaF (handleAdd s) = [] \<and>
      mes (handleAdd s) = [] \<and> ano (handleAdd s) = [] \<and> periodoF (handleAdd s) = [])"
proof (cases "aceita s")
  case True
  then show ?thesis using handleAdd_accept[OF True] by simp
next
  case False
  then show ?thesis by (simp add: handleAdd_reject)
qed

theorem handleAdd_atomic_witness:
  "aceita formCompleto \<and>
   data (handleAdd formCompleto) =
     [entrada ''C -> D'' 500 500 ''X'',
      \<lparr> fornecedor = JStr (U ''A'' @ [0x20, 0x2192, 0x20] @ U ''B''),
        valorInicial = Fin 1000, valorFinal = Fin 800, contaRazao = JStr (U ''X''),
        area = JStr (U ''Loja''), mesAno = JStr (U ''Janeiro/2025''),
        periodo = JStr (U ''Anual'') \<rparr>] \<and>
   fornecedorInicial (handleAdd formCompleto) = [] \<and>
   valorInicialF (handleAdd formCompleto) = Vazio \<and>
   periodoF (handleAdd formCompleto) = [] \<and>
   \<not> aceita (formCompleto\<lparr> fornecedorFinal := [] \<rparr>) \<and>
   handleAdd (formCompleto\<lparr> fornecedorFinal := [] \<rparr>) = formCompleto\<lparr> fornecedorFinal := [] \<rparr>"
proof -
  have a: "aceita formCompleto"
    by (simp add: aceita_def formCompleto_def num_truthy_def U_def)
  have r: "\<not> aceita (formCompleto\<lparr> fornecedorFinal := [] \<rparr>)"
    by (simp add: aceita_def)
  have n: "novaEntrada formCompleto =
      \<lparr> fornecedor = JStr (U ''A'' @ [0x20, 0x2192, 0x20] @ U ''B''),
        valorInicial = Fin 1000, valorFinal = Fin 800, contaRazao = JStr (U ''X''),
        area = JStr (U ''Loja''), mesAno = JStr (U ''Janeiro/2025''),
        periodo = JStr (U ''Anual'') \<rparr>"
    by (simp add: novaEntrada_def formCompleto_def U_def)
  have d: "data formCompleto = [entrada ''C -> D'' 500 500 ''X'']"
    by (simp add: formCompleto_def)
  show ?thesis
    using handleAdd_atomic[of formCompleto] handleAdd_atomic[of "formCompleto\<lparr> fornecedorFinal := [] \<rparr>"]
      a r n d by simp
qed

text \<open>
  Claim C2. As stated the claim fails: with both suppliers filled, the quoted value 1000 and
  the final value 0 (a present, non-empty numeric field), \<open>handleAdd\<close> produces no
  record, because its condition tests the truthiness of the fields and 0 is falsy.
\<close>

theorem handleAdd_zero_counterexample:
  "fornecedorInicial (formCompleto\<lparr> valorFinalF := Valor (Fin 0) \<rparr>) = U ''A'' \<and>
   valorInicialF (formCompleto\<lparr> valorFinalF := Valor (Fin 0) \<rparr>) = Valor (Fin 1000) \<and>
   fornecedorFinal (formCompleto\<lparr> valorFinalF := Valor (Fin 0) \<rparr>) = U ''B'' \<and>
   valorFinalF (formCompleto\<lparr> valorFinalF := Valor (Fin 0) \<rparr>) = Valor (Fin 0) \<and>
   data (handleAdd (formCompleto\<lparr> valorFinalF := Valor (Fin 0) \<rparr>)) = data formCompleto"
  by (simp add: handleAdd_def aceita_def formCompleto_def num_truthy_def)

text \<open>
  Claim C2. (amended) \<open>handleAdd\<close> appends a record exactly when both supplier fields are
  non-empty strings and both numeric fields hold a number other than 0 and NaN; in every
  other state the record set is unchanged, in particular when the final value is missing
  (the record count is then unchanged). The period label of the record it builds is
  month, "/", year when both are non-empty, and the empty string otherwise.
\<close>

theorem handleAdd_appends_iff:
  "(data (handleAdd s) = data s @ [novaEntrada s]) =
     (fornecedorInicial s \<noteq> [] \<and> fornecedorFinal s \<noteq> [] \<and>
      (\<exists>q v. valorInicialF s = Valor q \<and> q \<noteq> Fin 0 \<and> q \<noteq> NaN \<and>
             valorFinalF s = Valor v \<and> v \<noteq> Fin 0 \<and> v \<noteq> NaN)) \<and>
   (data (handleAdd s) = data s \<or> data (handleAdd s) = data s @ [novaEntrada s]) \<and>
   (valorFinalF s = Vazio \<longrightarrow>
      data (handleAdd s) = data s \<and> length (data (handleAdd s)) = length (data s)) \<and>
   mesAno (novaEntrada s) =
     (if mes s \<noteq> [] \<and> ano s \<noteq> [] then JStr (mes s @ U ''/'' @ ano s) else JStr [])"
proof -
  have acc: "aceita s =
     (fornecedorInicial s \<noteq> [] \<and> fornecedorFinal s \<noteq> [] \<and>
      (\<exists>q v. valorInicialF s = Valor q \<and> q \<noteq> Fin 0 \<and> q \<noteq> NaN \<and>
             valorFinalF s = Valor v \<and> v \<noteq> Fin 0 \<and> v \<noteq> NaN))"
    by (cases "valorInicialF s"; cases "valorFinalF s") (auto simp: aceita_def num_truthy_def)
  have app: "(data (handleAdd s) = data s @ [novaEntrada s]) = aceita s"
    by (simp add: handleAdd_def)
  have vz: "valorFinalF s = Vazio \<Longrightarrow> \<not> aceita s"
    by (simp add: aceita_def)
  show ?thesis
    using acc app vz by (auto simp: handleAdd_def novaEntrada_def)
qed

theorem handleAdd_appends_iff_witness:
  "valorFinalF (formCompleto\<lparr> valorFinalF := Vazio \<rparr>) = Vazio \<and>
   data (handleAdd (formCompleto\<lparr> valorFinalF := Vazio \<rparr>)) = data formCompleto \<and>
   length (data (handleAdd (formCompleto\<lparr> valorFinalF := Vazio \<rparr>))) = 1 \<and>
   data (handleAdd formCompleto) = data formCompleto @ [novaEntrada formCompleto] \<and>
   mesAno (novaEntrada formCompleto) = JStr (U ''Janeiro/2025'') \<and>
   mesAno (novaEntrada (formCompleto\<lparr> ano := [] \<rparr>)) = JStr []"
proof -
  have a: "aceita formCompleto"
    by (simp add: aceita_def formCompleto_def num_truthy_def U_def)
  have m: "mes formCompleto = U ''Janeiro'' \<and> ano formCompleto = U ''2025''"
    by (simp add: formCompleto_def)
  have l: "length (data formCompleto) = 1" by (simp add: formCompleto_def)
  show ?thesis
    using handleAdd_appends_iff[of "formCompleto\<lparr> valorFinalF := Vazio \<rparr>"]
      handleAdd_appends_iff[of formCompleto]
      handleAdd_appends_iff[of "formCompleto\<lparr> ano := [] \<rparr>"] a m l
    by (simp add: handleAdd_def U_def)
qed

section \<open>Properties of the numeric fields\<close>




section \<open>Properties of the transitions of the record set\<close>

text \<open>
  Claim C8. As stated the claim fails: uploading a spreadsheet of one row while the record
  set holds one entry replaces the record set by the imported list, which is not the
  result of append-one, drop-all or drop-the-last.
\<close>

theorem upload_replaces_counterexample:
  "data (step digitosParaNumero formCompleto
      (Carregar (Some [linha (JStr (U ''A'')) (JNum (Fin 5)) (JNum (Fin 3))]))) \<noteq> [] \<and>
   data (step digitosParaNumero formCompleto
      (Carregar (Some [linha (JStr (U ''A'')) (JNum (Fin 5)) (JNum (Fin 3))]))) \<noteq>
     butlast (data formCompleto) \<and>
   take (length (data formCompleto)) (data (step digitosParaNumero formCompleto
      (Carregar (Some [linha (JStr (U ''A'')) (JNum (Fin 5)) (JNum (Fin 3))])))) \<noteq>
     data formCompleto"
  by (simp add: fromTabularRows_def importRow_def linha_def formCompleto_def entrada_def
      orZero_def num_truthy_def)

text \<open>
  Claim C8. (amended) Every transition of the record set leaves it unchanged, appends one
  entry, drops all entries, drops the last entry, or (the upload of a spreadsheet)
  replaces it by the imported list. In every transition other than an upload, each
  position that remains holds the entry it held before: no entry is edited in place.
\<close>

theorem record_set_transitions:
  "(data (step sn s ev) = data s \<or> data (step sn s ev) = data s @ [novaEntrada s] \<or>
    data (step sn s ev) = [] \<or> data (step sn s ev) = butlast (data s) \<or>
    (\<exists>json. ev = Carregar (Some json) \<and> data (step sn s ev) = fromTabularRows sn json)) \<and>
   ((\<forall>json. ev \<noteq> Carregar (Some json)) \<longrightarrow>
      (\<forall>i. i < length (data (step sn s ev)) \<and> i < length (data s) \<longrightarrow>
           data (step sn s ev) ! i = data s ! i))"
proof (cases ev)
  case LimparTudo
  then show ?thesis by simp
next
  case LimparUltimo
  then show ?thesis by (simp add: nth_butlast)
next
  case Adicionar
  then show ?thesis by (simp add: handleAdd_def nth_append)
next
  case (Carregar x)
  then show ?thesis by (cases x) simp_all
qed

theorem record_set_transitions_witness:
  "data (step digitosParaNumero formCompleto LimparTudo) = [] \<and>
   data (step digitosParaNumero formCompleto LimparUltimo) = [] \<and>
   data (step digitosParaNumero formCompleto Adicionar) =
     data formCompleto @ [novaEntrada formCompleto] \<and>
   data (step digitosParaNumero formCompleto Adicionar) ! 0 = data formCompleto ! 0 \<and>
   data (step digitosParaNumero formCompleto (Carregar None)) = data formCompleto \<and>
   data (step digitosParaNumero formCompleto (Carregar (Some []))) = []"
proof -
  have a: "aceita formCompleto"
    by (simp add: aceita_def formCompleto_def num_truthy_def U_def)
  have l: "length (data formCompleto) = 1" by (simp add: formCompleto_def)
  show ?thesis
    using record_set_transitions[of digitosParaNumero formCompleto Adicionar]
      record_set_transitions[of digitosParaNumero formCompleto LimparTudo] a l
    by (simp add: handleAdd_def fromTabularRows_def formCompleto_def)
qed

section \<open>Export to a spreadsheet and import again\<close>

lemma roundtrip_row:
  "importRow sn (exportRow e) =
     e\<lparr> fornecedor := js_or (fornecedor e) (JStr []),
        valorInicial := orZero (valorInicial e), valorFinal := orZero (valorFinal e),
        contaRazao := js_or (contaRazao e) (JStr []),
        area := js_or (area e) (JStr []), mesAno := js_or (mesAno e) (JStr []),
        periodo := js_or (periodo e) (JStr []) \<rparr>"
  by (simp add: importRow_def exportRow_def js_or_def)

lemma orZero_id: "n \<noteq> NaN \<Longrightarrow> orZero n = n"
  by (simp add: orZero_def num_truthy_def)

lemma importRow_defaulted:
  "js_or (fornecedor (importRow sn r)) (JStr []) = fornecedor (importRow sn r) \<and>
   js_or (contaRazao (importRow sn r)) (JStr []) = contaRazao (importRow sn r) \<and>
   js_or (area (importRow sn r)) (JStr []) = area (importRow sn r) \<and>
   js_or (mesAno (importRow sn r)) (JStr []) = mesAno (importRow sn r) \<and>
   js_or (periodo (importRow sn r)) (JStr []) = periodo (importRow sn r)"
  by (simp add: importRow_def js_or_def)

lemma roundtrip_imported: "importRow sn (exportRow (importRow sn' r)) = importRow sn' r"
  using importRow_not_NaN[of sn' r] importRow_defaulted[of sn' r]
  by (simp add: roundtrip_row orZero_id)

text \<open>
  Claim C5. Round trip. For every entry list, the row mapping of \<open>exportToExcel\<close>
  followed by the row mapping of \<open>handleFileUpload\<close> keeps the length and the
  order, reproduces each numeric field up to the default applied on import (\<open>v || 0\<close>)
  and each text field up to the defaulting applied on import (\<open>t || ""\<close>). The
  numeric fields are reproduced exactly when none is NaN, which holds of every record
  set the program builds. On a list that was itself imported the round trip is the
  identity.
\<close>

theorem export_import_roundtrip:
  "length (fromTabularRows sn (toTabularRows dat)) = length dat \<and>
   map valorInicial (fromTabularRows sn (toTabularRows dat)) =
     map (\<lambda>e. orZero (valorInicial e)) dat \<and>
   map valorFinal (fromTabularRows sn (toTabularRows dat)) =
     map (\<lambda>e. orZero (valorFinal e)) dat \<and>
   (semNaN dat \<longrightarrow>
      map valorInicial (fromTabularRows sn (toTabularRows dat)) = map valorInicial dat \<and>
      map valorFinal (fromTabularRows sn (toTabularRows dat)) = map valorFinal dat) \<and>
   map fornecedor (fromTabularRows sn (toTabularRows dat)) =
     map (\<lambda>e. js_or (fornecedor e) (JStr [])) dat \<and>
   map contaRazao (fromTabularRows sn (toTabularRows dat)) =
     map (\<lambda>e. js_or (contaRazao e) (JStr [])) dat \<and>
   map area (fromTabularRows sn (toTabularRows dat)) =
     map (\<lambda>e. js_or (area e) (JStr [])) dat \<and>
   map mesAno (fromTabularRows sn (toTabularRows dat)) =
     map (\<lambda>e. js_or (mesAno e) (JStr [])) dat \<and>
   map periodo (fromTabularRows sn (toTabularRows dat)) =
     map (\<lambda>e. js_or (periodo e) (JStr [])) dat \<and>
   fromTabularRows sn (toTabularRows (fromTabularRows sn' json)) = fromTabularRows sn' json"
proof -
  have i: "fromTabularRows sn (toTabularRows (fromTabularRows sn' json)) =
      fromTabularRows sn' json"
    by (simp add: fromTabularRows_def toTabularRows_def roundtrip_imported)
  have n: "map (\<lambda>e. orZero (valorInicial e)) dat = map valorInicial dat \<and>
      map (\<lambda>e. orZero (valorFinal e)) dat = map valorFinal dat" if "semNaN dat"
    using that by (simp add: semNaN_def orZero_id)
  show ?thesis
    using i n by (simp add: fromTabularRows_def toTabularRows_def roundtrip_row comp_def)
qed

theorem export_import_roundtrip_witness:
  "semNaN dadosOpcionais \<and>
   fromTabularRows digitosParaNumero (toTabularRows dadosOpcionais) =
     [\<lparr> fornecedor = JStr (U ''A -> B''), valorInicial = Fin 1000, valorFinal = Fin 800,
        contaRazao = JStr [], area = JStr (U ''Loja''), mesAno = JStr [],
        periodo = JStr [] \<rparr>,
      entrada ''C -> D'' 0 (- 3) ''X''] \<and>
   map valorInicial (fromTabularRows digitosParaNumero (toTabularRows dadosOpcionais)) =
     map valorInicial dadosOpcionais \<and>
   map valorFinal (fromTabularRows digitosParaNumero (toTabularRows dadosOpcionais)) =
     map valorFinal dadosOpcionais"
proof -
  have s: "semNaN dadosOpcionais"
    by (simp add: semNaN_def dadosOpcionais_def entrada_def)
  have v: "fromTabularRows digitosParaNumero (toTabularRows dadosOpcionais) =
     [\<lparr> fornecedor = JStr (U ''A -> B''), valorInicial = Fin 1000, valorFinal = Fin 800,
        contaRazao = JStr [], area = JStr (U ''Loja''), mesAno = JStr [],
        periodo = JStr [] \<rparr>,
      entrada ''C -> D'' 0 (- 3) ''X'']"
    by (simp add: fromTabularRows_def toTabularRows_def dadosOpcionais_def entrada_def
        importRow_def exportRow_def js_or_def orZero_def num_truthy_def U_def)
  have "map valorInicial (fromTabularRows digitosParaNumero (toTabularRows dadosOpcionais)) =
      map valorInicial dadosOpcionais \<and>
    map valorFinal (fromTabularRows digitosParaNumero (toTabularRows dadosOpcionais)) =
      map valorFinal dadosOpcionais"
    using export_import_roundtrip[of digitosParaNumero dadosOpcionais] s by blast
  then show ?thesis using s v by blast
qed

section \<open>Properties of the aggregates\<close>

lemma foldl_jadd_exact:
  "somasExatas acc xs \<Longrightarrow> foldl jadd (Fin acc) (map Fin xs) = Fin (acc + sum_list xs)"
  by (induction xs arbitrary: acc) (simp_all add: binary64_def add.assoc)

lemma total_exact:
  assumes "\<forall>e \<in> set dat. is_Fin (f e)" "somasExatas 0 (map (\<lambda>e. the_Fin (f e)) dat)"
  shows "foldl (\<lambda>acc curr. jadd acc (f curr)) (Fin 0) dat = Fin (\<Sum>e\<leftarrow>dat. the_Fin (f e))"
proof -
  have m: "map f dat = map Fin (map (\<lambda>e. the_Fin (f e)) dat)"
    using assms(1) by (induction dat) auto
  have "foldl (\<lambda>acc curr. jadd acc (f curr)) (Fin 0) dat = foldl jadd (Fin 0) (map f dat)"
    by (simp add: foldl_map)
  then show ?thesis using foldl_jadd_exact[OF assms(2)] m by simp
qed

text \<open>
  Claim C4. As stated the claim fails: for the single entry with quoted value -100 and final
  value 100 the total quoted is -100 (not zero) and savings / total * 100 is 200, but the
  percentage the program computes is 0, because it divides only when the total quoted
  is greater than zero.
\<close>

theorem negative_total_counterexample:
  "totalInicial [entrada ''A -> B'' (- 100) 100 ''X''] = Fin (- 100) \<and>
   economia [entrada ''A -> B'' (- 100) 100 ''X''] = Fin (- 200) \<and>
   jmul (jdiv (economia [entrada ''A -> B'' (- 100) 100 ''X''])
              (totalInicial [entrada ''A -> B'' (- 100) 100 ''X''])) (Fin 100) = Fin 200 \<and>
   economiaGeralPerc [entrada ''A -> B'' (- 100) 100 ''X''] = Fin 0"
  by (simp add: totalInicial_def totalFinal_def economia_def economiaGeralPerc_def jsub_def
      entrada_def)

text \<open>
  Claim C4. (amended) For every entry list the total quoted and the total final are the
  left-to-right sums of the entries' values in the arithmetic of the language (each
  addition rounded to binary64); they are the exact sums when the values are finite and
  no partial sum is rounded. The absolute savings are total quoted minus total final in
  that arithmetic. The savings percentage is 0 whenever the total quoted is not greater
  than zero (zero, negative or NaN), and savings / total quoted * 100 in that arithmetic
  whenever the total quoted is greater than zero, also when it is infinite and also when
  the savings are negative.
\<close>

theorem aggregate_totals:
  "economia dat = jsub (totalInicial dat) (totalFinal dat) \<and>
   (jgt (totalInicial dat) (Fin 0) \<longrightarrow>
      economiaGeralPerc dat = jmul (jdiv (economia dat) (totalInicial dat)) (Fin 100)) \<and>
   (\<not> jgt (totalInicial dat) (Fin 0) \<longrightarrow> economiaGeralPerc dat = Fin 0) \<and>
   totalInicial dat = foldl jadd (Fin 0) (map valorInicial dat) \<and>
   totalFinal dat = foldl jadd (Fin 0) (map valorFinal dat) \<and>
   ((\<forall>e \<in> set dat. is_Fin (valorInicial e)) \<and>
    somasExatas 0 (map (\<lambda>e. the_Fin (valorInicial e)) dat) \<longrightarrow>
      totalInicial dat = Fin (\<Sum>e\<leftarrow>dat. the_Fin (valorInicial e))) \<and>
   ((\<forall>e \<in> set dat. is_Fin (valorFinal e)) \<and>
    somasExatas 0 (map (\<lambda>e. the_Fin (valorFinal e)) dat) \<longrightarrow>
      totalFinal dat = Fin (\<Sum>e\<leftarrow>dat. the_Fin (valorFinal e)))"
proof -
  have q: "totalInicial dat = Fin (\<Sum>e\<leftarrow>dat. the_Fin (valorInicial e))"
    if "\<forall>e \<in> set dat. is_Fin (valorInicial e)"
      "somasExatas 0 (map (\<lambda>e. the_Fin (valorInicial e)) dat)"
    using total_exact[OF that] by (simp add: totalInicial_def)
  have f: "totalFinal dat = Fin (\<Sum>e\<leftarrow>dat. the_Fin (valorFinal e))"
    if "\<forall>e \<in> set dat. is_Fin (valorFinal e)"
      "somasExatas 0 (map (\<lambda>e. the_Fin (valorFinal e)) dat)"
    using total_exact[OF that] by (simp add: totalFinal_def)
  have m: "totalInicial dat = foldl jadd (Fin 0) (map valorInicial dat)"
    "totalFinal dat = foldl jadd (Fin 0) (map valorFinal dat)"
    by (simp_all add: totalInicial_def totalFinal_def foldl_map)
  have p: "economia dat = jsub (totalInicial dat) (totalFinal dat)"
    "jgt (totalInicial dat) (Fin 0) \<longrightarrow>
      economiaGeralPerc dat = jmul (jdiv (economia dat) (totalInicial dat)) (Fin 100)"
    "\<not> jgt (totalInicial dat) (Fin 0) \<longrightarrow> economiaGeralPerc dat = Fin 0"
    by (simp_all add: economia_def economiaGeralPerc_def)
  show ?thesis using q f m p by blast
qed

theorem aggregate_totals_witness:
  "list_all (\<lambda>e. is_Fin (valorInicial e) \<and> is_Fin (valorFinal e))
      [entrada ''A -> B'' 1000 800 ''X'', entrada ''C -> D'' 500 500 ''X''] \<and>
   somasExatas 0 (map (\<lambda>e. the_Fin (valorInicial e))
      [entrada ''A -> B'' 1000 800 ''X'', entrada ''C -> D'' 500 500 ''X'']) \<and>
   somasExatas 0 (map (\<lambda>e. the_Fin (valorFinal e))
      [entrada ''A -> B'' 1000 800 ''X'', entrada ''C -> D'' 500 500 ''X'']) \<and>
   totalInicial [entrada ''A -> B'' 1000 800 ''X'', entrada ''C -> D'' 500 500 ''X''] = Fin 1500 \<and>
   totalFinal [entrada ''A -> B'' 1000 800 ''X'', entrada ''C -> D'' 500 500 ''X''] = Fin 1300 \<and>
   economia [entrada ''A -> B'' 1000 800 ''X'', entrada ''C -> D'' 500 500 ''X''] = Fin 200 \<and>
   jgt (totalInicial [entrada ''A -> B'' 100 200 ''X'']) (Fin 0) \<and>
   economia [entrada ''A -> B'' 100 200 ''X''] = Fin (- 100) \<and>
   economiaGeralPerc [entrada ''A -> B'' 100 200 ''X''] = Fin (- 100) \<and>
   \<not> jgt (totalInicial []) (Fin 0) \<and> economiaGeralPerc [] = Fin 0"
proof -
  let ?d = "[entrada ''A -> B'' 1000 800 ''X'', entrada ''C -> D'' 500 500 ''X'']"
  have f: "list_all (\<lambda>e. is_Fin (valorInicial e) \<and> is_Fin (valorFinal e)) ?d"
    by (simp add: entrada_def)
  have x: "somasExatas 0 (map (\<lambda>e. the_Fin (valorInicial e)) ?d)"
    "somasExatas 0 (map (\<lambda>e. the_Fin (valorFinal e)) ?d)"
    by (simp_all add: entrada_def binary64_def)
  have fa: "\<forall>e \<in> set ?d. is_Fin (valorInicial e)" "\<forall>e \<in> set ?d. is_Fin (valorFinal e)"
    by (simp_all add: entrada_def)
  have i: "totalInicial ?d = Fin (\<Sum>e\<leftarrow>?d. the_Fin (valorInicial e))"
    "totalFinal ?d = Fin (\<Sum>e\<leftarrow>?d. the_Fin (valorFinal e))"
    using aggregate_totals[of ?d] fa x by blast+
  then have t: "totalInicial ?d = Fin 1500" "totalFinal ?d = Fin 1300"
    by (simp_all add: entrada_def)
  have e: "economia ?d = Fin 200" using t by (simp add: economia_def jsub_def)
  have v: "jgt (totalInicial [entrada ''A -> B'' 100 200 ''X'']) (Fin 0)"
    "economia [entrada ''A -> B'' 100 200 ''X''] = Fin (- 100)"
    "\<not> jgt (totalInicial []) (Fin 0)"
    by (simp_all add: totalInicial_def totalFinal_def economia_def jsub_def entrada_def)
  have "economiaGeralPerc [entrada ''A -> B'' 100 200 ''X''] =
      jmul (jdiv (economia [entrada ''A -> B'' 100 200 ''X''])
                 (totalInicial [entrada ''A -> B'' 100 200 ''X''])) (Fin 100)"
    using aggregate_totals[of "[entrada ''A -> B'' 100 200 ''X'']"] v(1) by blast
  then have p: "economiaGeralPerc [entrada ''A -> B'' 100 200 ''X''] = Fin (- 100)"
    using v(2) by (simp add: totalInicial_def entrada_def)
  have z: "economiaGeralPerc [] = Fin 0" using aggregate_totals[of "[]"] v(3) by blast
  show ?thesis using f x t e v p z by simp
qed

text \<open>
  The totals on an input whose sum is rounded away from the exact one: two quoted
  values of \<open>2^1023\<close> add up to infinity, and the percentage is NaN.
\<close>

lemma totals_overflow:
  "totalInicial [entrada ''A'' (2 ^ 1023) 0 ''X'', entrada ''B'' (2 ^ 1023) 0 ''X''] = PInf \<and>
   economia [entrada ''A'' (2 ^ 1023) 0 ''X'', entrada ''B'' (2 ^ 1023) 0 ''X''] = PInf \<and>
   economiaGeralPerc [entrada ''A'' (2 ^ 1023) 0 ''X'', entrada ''B'' (2 ^ 1023) 0 ''X''] = NaN"
proof -
  let ?d = "[entrada ''A'' (2 ^ 1023) 0 ''X'', entrada ''B'' (2 ^ 1023) 0 ''X'']"
  have a: "jadd (Fin 0) (Fin (2 ^ 1023)) = Fin (2 ^ 1023)"
    using round64_pow2[of 1023] by simp
  have t: "totalInicial ?d = PInf"
    by (simp only: totalInicial_def entrada_def foldl.simps Entry.simps a addition_overflows)
  have f: "totalFinal ?d = Fin 0" by (simp add: totalFinal_def entrada_def)
  have e: "economia ?d = PInf" by (simp only: economia_def t f) (simp add: jsub_def)
  have p: "economiaGeralPerc ?d = NaN" by (simp only: economiaGeralPerc_def e t) simp
  show ?thesis using t e p by simp
qed

section \<open>Properties of the leading category\<close>

lemma map_of_objSet:
  "map_of (objSet m k v) k' = (if k' = k then Some v else map_of m k')"
  by (induction m) auto

lemma objGet_objSet: "objGet (objSet m k v) k' = (if k' = k then v else objGet m k')"
  by (simp add: objGet_def map_of_objSet)

lemma fst_objSet:
  "map fst (objSet m k v) = (if k \<in> fst ` set m then map fst m else map fst m @ [k])"
  by (induction m) (auto simp: image_iff rev_image_eqI, force+)

lemma objGet_absent:
  assumes "k \<notin> fst ` set m" "\<not> herdado k"
  shows "objGet m k = PUndefined"
proof -
  have "map_of m k = None" using assms(1) by (simp add: map_of_eq_None_iff)
  then show ?thesis using assms(2) by (simp add: objGet_def herdado_def)
qed

lemma contaMaisUsada_snoc:
  "contaMaisUsada ns ft (dat @ [e]) =
     atribuir (contaMaisUsada ns ft dat) (contaKey ns e)
       (mais ns ft (pOrZero (objGet (contaMaisUsada ns ft dat) (contaKey ns e))) (valorFinal e))"
  by (simp add: contaMaisUsada_def)

lemma first_seen_snoc:
  "rev (remdups (rev (xs @ [x]))) =
     (if x \<in> set xs then rev (remdups (rev xs)) else rev (remdups (rev xs)) @ [x])"
  by simp

lemma contaMaisUsada_keys:
  "map fst (contaMaisUsada ns ft dat) =
     rev (remdups (rev (filter (\<lambda>k. k \<noteq> U ''__proto__'') (map (contaKey ns) dat))))"
proof (induction dat rule: rev_induct)
  case Nil
  then show ?case by (simp add: contaMaisUsada_def)
next
  case (snoc e dat)
  let ?ks = "filter (\<lambda>k. k \<noteq> U ''__proto__'') (map (contaKey ns) dat)"
  have s: "fst ` set (contaMaisUsada ns ft dat) = set ?ks"
    using arg_cong[OF snoc.IH, of set] by simp
  show ?case
  proof (cases "contaKey ns e = U ''__proto__''")
    case True
    then show ?thesis unfolding contaMaisUsada_snoc using snoc.IH by (simp add: atribuir_def)
  next
    case False
    then have f: "filter (\<lambda>k. k \<noteq> U ''__proto__'') (map (contaKey ns) (dat @ [e])) =
        ?ks @ [contaKey ns e]" by simp
    show ?thesis
      unfolding contaMaisUsada_snoc f first_seen_snoc
      using False snoc.IH s by (simp add: atribuir_def fst_objSet)
  qed
qed

lemma contaMaisUsada_key_set:
  "fst ` set (contaMaisUsada ns ft dat) = contaKey ns ` set dat - {U ''__proto__''}"
  using arg_cong[OF contaMaisUsada_keys[of ns ft dat], of set] by auto

lemma pOrZero_PNum: "pOrZero (PNum n) = PNum (orZero n)"
  by (simp add: pOrZero_def orZero_def)

lemma mais_PNum: "mais ns ft (PNum a) v = PNum (jadd a v)"
  by (simp add: mais_def)

lemma contaMaisUsada_sums:
  assumes "\<forall>e \<in> set dat. \<not> herdado (contaKey ns e)"
  shows "objGet (contaMaisUsada ns ft dat) k =
     (if k \<in> contaKey ns ` set dat then PNum (somaCategoria ns dat k)
      else if k = U ''__proto__'' then PObjectPrototype
      else if k \<in> set protoFuncoes then PFun k else PUndefined)"
  using assms
proof (induction dat arbitrary: k rule: rev_induct)
  case Nil
  then show ?case by (simp add: contaMaisUsada_def objGet_def)
next
  case (snoc e dat)
  let ?m = "contaMaisUsada ns ft dat"
  let ?ke = "contaKey ns e"
  have IH: "objGet ?m k' =
     (if k' \<in> contaKey ns ` set dat then PNum (somaCategoria ns dat k')
      else if k' = U ''__proto__'' then PObjectPrototype
      else if k' \<in> set protoFuncoes then PFun k' else PUndefined)" for k'
    using snoc.IH[of k'] snoc.prems by simp
  have nh: "\<not> herdado ?ke" using snoc.prems by simp
  then have np: "?ke \<noteq> U ''__proto__''" "?ke \<notin> set protoFuncoes"
    by (auto simp: herdado_def)
  have upd: "contaMaisUsada ns ft (dat @ [e]) =
      objSet ?m ?ke (mais ns ft (pOrZero (objGet ?m ?ke)) (valorFinal e))"
    unfolding contaMaisUsada_snoc using np by (simp add: atribuir_def)
  show ?case
  proof (cases "k = ?ke")
    case True
    have new: "filter (\<lambda>x. contaKey ns x = ?ke) dat = []" if "?ke \<notin> contaKey ns ` set dat"
      using that by (metis (mono_tags, lifting) filter_False image_eqI)
    have val: "mais ns ft (pOrZero (objGet ?m ?ke)) (valorFinal e) =
        PNum (somaCategoria ns (dat @ [e]) ?ke)"
    proof (cases "?ke \<in> contaKey ns ` set dat")
      case True
      then show ?thesis
        by (simp add: IH[of ?ke] pOrZero_PNum mais_PNum somaCategoria_def)
    next
      case False
      then show ?thesis
        using np by (simp add: IH[of ?ke] pOrZero_def mais_PNum somaCategoria_def new
            orZero_def num_truthy_def)
    qed
    show ?thesis unfolding upd objGet_objSet using True val by simp
  next
    case False
    then have "filter (\<lambda>x. contaKey ns x = k) (dat @ [e]) = filter (\<lambda>x. contaKey ns x = k) dat"
      by auto
    then have "somaCategoria ns (dat @ [e]) k = somaCategoria ns dat k"
      by (simp add: somaCategoria_def)
    moreover have "k \<in> contaKey ns ` set (dat @ [e]) \<longleftrightarrow> k \<in> contaKey ns ` set dat"
      using False by auto
    ultimately show ?thesis
      unfolding upd objGet_objSet using False IH[of k] by simp
  qed
qed

lemma set_Object_keys: "set (Object_keys m) = fst ` set m"
  by (auto simp: Object_keys_def)

lemma Object_keys_no_index:
  assumes "\<forall>k \<in> fst ` set m. \<not> isArrayIndex k"
  shows "Object_keys m = map fst m"
proof -
  have "filter isArrayIndex (map fst m) = []" using assms by (auto simp: filter_empty_conv)
  moreover have "filter (\<lambda>k. \<not> isArrayIndex k) (map fst m) = map fst m"
    using assms by (auto simp: filter_id_conv)
  ultimately show ?thesis by (simp add: Object_keys_def)
qed

lemma jgt_irrefl: "\<not> jgt x x"
  by (cases x) auto

lemma jgt_le_trans:
  "y \<noteq> NaN \<Longrightarrow> \<not> jgt x y \<Longrightarrow> \<not> jgt y z \<Longrightarrow> \<not> jgt x z"
  by (cases x; cases y; cases z) auto

lemma jgt_less_le:
  "x \<noteq> NaN \<Longrightarrow> jgt x y \<Longrightarrow> \<not> jgt x z \<Longrightarrow> \<not> jgt y z"
  by (cases x; cases y; cases z) auto

lemma pGt_PNum: "pGt sn ft (PNum a) (PNum b) = jgt a b"
  by (simp add: pGt_def)

lemma pGt_PUndefined: "\<not> pGt sn ft PUndefined (PNum b)"
  by (simp add: pGt_def)

lemma maior_apply:
  "maior sn ft m a b = (if pGt sn ft (objGet m a) (objGet m b) then a else b)"
  by (simp add: maior_def)

lemma foldl_maior:
  assumes "\<forall>k \<in> set ks. \<exists>n. objGet m k = PNum n \<and> n \<noteq> NaN"
    and "objGet m a = PUndefined \<or> (\<exists>n. objGet m a = PNum n \<and> n \<noteq> NaN)"
  shows "(foldl (maior sn ft m) a ks = a \<and>
          (\<forall>k \<in> set ks. pGt sn ft (objGet m a) (objGet m k))) \<or>
    (\<exists>pre post. ks = pre @ foldl (maior sn ft m) a ks # post \<and>
       (\<forall>k \<in> set pre. \<not> pGt sn ft (objGet m k) (objGet m (foldl (maior sn ft m) a ks))) \<and>
       \<not> pGt sn ft (objGet m a) (objGet m (foldl (maior sn ft m) a ks)) \<and>
       (\<forall>k \<in> set post. pGt sn ft (objGet m (foldl (maior sn ft m) a ks)) (objGet m k)))"
  using assms
proof (induction ks arbitrary: a)
  case Nil
  then show ?case by simp
next
  case (Cons b ks)
  let ?a' = "maior sn ft m a b"
  let ?t = "foldl (maior sn ft m) ?a' ks"
  obtain nb where nb: "objGet m b = PNum nb" "nb \<noteq> NaN" using Cons.prems(1) by auto
  have a': "objGet m ?a' = PUndefined \<or> (\<exists>n. objGet m ?a' = PNum n \<and> n \<noteq> NaN)"
    using Cons.prems(2) nb by (auto simp: maior_apply)
  have ks: "\<forall>k \<in> set ks. \<exists>n. objGet m k = PNum n \<and> n \<noteq> NaN" using Cons.prems(1) by simp
  from Cons.IH[OF ks a'] show ?case
  proof (elim disjE conjE exE)
    assume t: "?t = ?a'" and all: "\<forall>k \<in> set ks. pGt sn ft (objGet m ?a') (objGet m k)"
    show ?thesis
    proof (cases "pGt sn ft (objGet m a) (objGet m b)")
      case True
      then have "?a' = a" by (simp add: maior_apply)
      then show ?thesis using t all True by simp
    next
      case False
      then have "?a' = b" by (simp add: maior_apply)
      then show ?thesis using t all False
        by (intro disjI2 exI[of _ "[]"] exI[of _ ks]) simp
    qed
  next
    fix pre post
    assume sp: "ks = pre @ ?t # post"
      and p1: "\<forall>k \<in> set pre. \<not> pGt sn ft (objGet m k) (objGet m ?t)"
      and p2: "\<not> pGt sn ft (objGet m ?a') (objGet m ?t)"
      and p3: "\<forall>k \<in> set post. pGt sn ft (objGet m ?t) (objGet m k)"
    have "?t \<in> set ks" using sp by (metis in_set_conv_decomp)
    then obtain nt where nt: "objGet m ?t = PNum nt" "nt \<noteq> NaN" using ks by auto
    have "\<not> pGt sn ft (objGet m b) (objGet m ?t) \<and> \<not> pGt sn ft (objGet m a) (objGet m ?t)"
    proof (cases "pGt sn ft (objGet m a) (objGet m b)")
      case True
      then obtain na where na: "objGet m a = PNum na" "na \<noteq> NaN"
        using Cons.prems(2) nb by (auto simp: pGt_def)
      have "?a' = a" using True by (simp add: maior_apply)
      then have "\<not> jgt na nt" using p2 na nt by (simp add: pGt_PNum)
      moreover have "jgt na nb" using True na nb by (simp add: pGt_PNum)
      ultimately have "\<not> jgt nb nt" using jgt_less_le[OF na(2)] by blast
      then show ?thesis using \<open>\<not> jgt na nt\<close> na nb nt by (simp add: pGt_PNum)
    next
      case False
      then have ab: "?a' = b" by (simp add: maior_apply)
      then have bt: "\<not> jgt nb nt" using p2 nb nt by (simp add: pGt_PNum)
      have "\<not> pGt sn ft (objGet m a) (objGet m ?t)"
      proof (cases "objGet m a = PUndefined")
        case True
        then show ?thesis using nt by (simp add: pGt_PUndefined)
      next
        case F: False
        then obtain na where na: "objGet m a = PNum na" "na \<noteq> NaN"
          using Cons.prems(2) by auto
        have "\<not> jgt na nb" using False na nb by (simp add: pGt_PNum)
        then have "\<not> jgt na nt" using jgt_le_trans[OF nb(2)] bt by blast
        then show ?thesis using na nt by (simp add: pGt_PNum)
      qed
      then show ?thesis using bt nb nt by (simp add: pGt_PNum)
    qed
    then show ?thesis using sp p1 p3
      by (intro disjI2 exI[of _ "b # pre"] exI[of _ post]) simp
  qed
qed

lemma Nenhuma_not_herdado: "Nenhuma \<noteq> U ''__proto__''" "Nenhuma \<notin> set protoFuncoes"
  by (simp_all add: Nenhuma_def protoFuncoes_def U_def)

lemma contaTop_last_max:
  assumes nh: "\<forall>e \<in> set dat. \<not> herdado (contaKey ns e)"
    and nn: "\<forall>e \<in> set dat. somaCategoria ns dat (contaKey ns e) \<noteq> NaN"
    and ne: "dat \<noteq> []"
  shows "\<exists>pre post.
       Object_keys (contaMaisUsada ns ft dat) = pre @ contaTop sn ns ft dat # post \<and>
       (\<forall>k \<in> set pre. \<not> pGt sn ft (objGet (contaMaisUsada ns ft dat) k)
                              (objGet (contaMaisUsada ns ft dat) (contaTop sn ns ft dat))) \<and>
       (\<forall>k \<in> set post. pGt sn ft (objGet (contaMaisUsada ns ft dat) (contaTop sn ns ft dat))
                             (objGet (contaMaisUsada ns ft dat) k))"
proof -
  let ?m = "contaMaisUsada ns ft dat"
  let ?ks = "Object_keys ?m"
  have np: "U ''__proto__'' \<notin> contaKey ns ` set dat" using nh by (auto simp: herdado_def)
  have keys: "set ?ks = contaKey ns ` set dat"
    using contaMaisUsada_key_set[of ns ft dat] np by (simp add: set_Object_keys)
  have vals: "\<exists>n. objGet ?m k = PNum n \<and> n \<noteq> NaN" if "k \<in> set ?ks" for k
    using that keys contaMaisUsada_sums[OF nh, of ft k] nn by auto
  have a0: "objGet ?m Nenhuma = PUndefined \<or> (\<exists>n. objGet ?m Nenhuma = PNum n \<and> n \<noteq> NaN)"
    using contaMaisUsada_sums[OF nh, of ft Nenhuma] nn Nenhuma_not_herdado by auto
  have nonempty: "?ks \<noteq> []" using keys ne by auto
  from foldl_maior[of ?ks ?m Nenhuma sn ft] vals a0
  consider (stay) "foldl (maior sn ft ?m) Nenhuma ?ks = Nenhuma"
      "\<forall>k \<in> set ?ks. pGt sn ft (objGet ?m Nenhuma) (objGet ?m k)"
    | (move) pre post where "?ks = pre @ foldl (maior sn ft ?m) Nenhuma ?ks # post"
      "\<forall>k \<in> set pre. \<not> pGt sn ft (objGet ?m k) (objGet ?m (foldl (maior sn ft ?m) Nenhuma ?ks))"
      "\<forall>k \<in> set post. pGt sn ft (objGet ?m (foldl (maior sn ft ?m) Nenhuma ?ks)) (objGet ?m k)"
    by blast
  then show ?thesis
  proof cases
    case stay
    obtain k where k: "k \<in> set ?ks" using nonempty by (cases ?ks) auto
    then obtain n where n: "objGet ?m k = PNum n" using vals by blast
    from stay(2) k have g: "pGt sn ft (objGet ?m Nenhuma) (objGet ?m k)" by simp
    then obtain x where x: "objGet ?m Nenhuma = PNum x"
      using a0 n by (auto simp: pGt_PUndefined)
    have "Nenhuma \<in> fst ` set ?m"
    proof (rule ccontr)
      assume "Nenhuma \<notin> fst ` set ?m"
      then have "objGet ?m Nenhuma = PUndefined"
        using objGet_absent[of Nenhuma ?m] Nenhuma_not_herdado by (simp add: herdado_def)
      then show False using x by simp
    qed
    then have "Nenhuma \<in> set ?ks" by (simp add: set_Object_keys)
    with stay(2) have "pGt sn ft (objGet ?m Nenhuma) (objGet ?m Nenhuma)" by simp
    then show ?thesis using x by (simp add: pGt_PNum jgt_irrefl)
  next
    case move
    then show ?thesis unfolding contaTop_def by blast
  qed
qed

text \<open>
  Claim C1. As stated the claim fails: with categories A, B, C first seen in this order and
  summed final values 10, 10 and 5, the leading category is B, the later of the two
  tied categories, not A.
\<close>

theorem tie_later_wins_counterexample:
  "Object_keys (contaMaisUsada ns_exemplo ft_exemplo dadosEmpate) = [U ''A'', U ''B'', U ''C''] \<and>
   objGet (contaMaisUsada ns_exemplo ft_exemplo dadosEmpate) (U ''A'') = PNum (Fin 10) \<and>
   objGet (contaMaisUsada ns_exemplo ft_exemplo dadosEmpate) (U ''B'') = PNum (Fin 10) \<and>
   contaTop digitosParaNumero ns_exemplo ft_exemplo dadosEmpate = U ''B'' \<and>
   contaTop digitosParaNumero ns_exemplo ft_exemplo dadosEmpate \<noteq> U ''A''"
  by (simp add: contaTop_def contaMaisUsada_def dadosEmpate_def entrada_def contaKey_def
      js_or_def objGet_def pOrZero_def mais_def atribuir_def num_truthy_def Object_keys_def
      isArrayIndex_def isDigit_def maior_def pGt_def protoFuncoes_def U_def Nenhuma_def
      Nao_informada_def)

text \<open>
  Claim C1. (amended) For the empty entry list the leading category is the sentinel
  "Nenhuma" and all sums are 0. The keys of the per-category sums are created in
  first-seen order (the category \<open>__proto__\<close> creates none), and \<open>Object.keys\<close>
  lists them in that order when no category is an array index (array indices come
  first, in ascending order). When no category is a name that \<open>Object.prototype\<close>
  defines, each category maps to the running sum of the final values of its entries, as
  the reducer computes it. When moreover none of these sums is NaN and the list is not
  empty, the leader is replaced by a candidate unless the leader's sum is strictly
  greater: the leading category is the last key, in the order of iteration, of maximal
  sum. No key before it has a greater sum and every key after it has a strictly smaller
  sum, so of two categories with equal maximal sums the later one is the leader.
\<close>

theorem contaTop_selection:
  "contaTop sn ns ft [] = Nenhuma \<and> valorContaTop sn ns ft [] = PNum (Fin 0) \<and>
   contaMaisUsada ns ft [] = [] \<and>
   totalInicial [] = Fin 0 \<and> totalFinal [] = Fin 0 \<and> economia [] = Fin 0 \<and>
   economiaGeralPerc [] = Fin 0 \<and>
   map fst (contaMaisUsada ns ft dat) =
     rev (remdups (rev (filter (\<lambda>k. k \<noteq> U ''__proto__'') (map (contaKey ns) dat)))) \<and>
   ((\<forall>k \<in> contaKey ns ` set dat. \<not> isArrayIndex k) \<longrightarrow>
      Object_keys (contaMaisUsada ns ft dat) = map fst (contaMaisUsada ns ft dat)) \<and>
   ((\<forall>e \<in> set dat. \<not> herdado (contaKey ns e)) \<longrightarrow>
      (\<forall>k \<in> contaKey ns ` set dat.
          objGet (contaMaisUsada ns ft dat) k = PNum (somaCategoria ns dat k))) \<and>
   ((\<forall>e \<in> set dat. \<not> herdado (contaKey ns e)) \<and>
    (\<forall>e \<in> set dat. somaCategoria ns dat (contaKey ns e) \<noteq> NaN) \<and> dat \<noteq> [] \<longrightarrow>
      (\<exists>pre post.
          Object_keys (contaMaisUsada ns ft dat) = pre @ contaTop sn ns ft dat # post \<and>
          (\<forall>k \<in> set pre. \<not> pGt sn ft (objGet (contaMaisUsada ns ft dat) k)
                                 (objGet (contaMaisUsada ns ft dat) (contaTop sn ns ft dat))) \<and>
          (\<forall>k \<in> set post. pGt sn ft (objGet (contaMaisUsada ns ft dat) (contaTop sn ns ft dat))
                                (objGet (contaMaisUsada ns ft dat) k))))"
proof -
  have empty: "contaTop sn ns ft [] = Nenhuma \<and> valorContaTop sn ns ft [] = PNum (Fin 0) \<and>
      contaMaisUsada ns ft [] = [] \<and> totalInicial [] = Fin 0 \<and> totalFinal [] = Fin 0 \<and>
      economia [] = Fin 0 \<and> economiaGeralPerc [] = Fin 0"
    using Nenhuma_not_herdado
    by (simp add: contaTop_def valorContaTop_def contaMaisUsada_def Object_keys_def objGet_def
        pOrZero_def totalInicial_def totalFinal_def economia_def jsub_def economiaGeralPerc_def)
  have order: "Object_keys (contaMaisUsada ns ft dat) = map fst (contaMaisUsada ns ft dat)"
    if "\<forall>k \<in> contaKey ns ` set dat. \<not> isArrayIndex k"
    using that contaMaisUsada_key_set[of ns ft dat]
      Object_keys_no_index[of "contaMaisUsada ns ft dat"] by auto
  have sums: "objGet (contaMaisUsada ns ft dat) k = PNum (somaCategoria ns dat k)"
    if "\<forall>e \<in> set dat. \<not> herdado (contaKey ns e)" "k \<in> contaKey ns ` set dat" for k
    using contaMaisUsada_sums[OF that(1), of ft k] that(2) by simp
  show ?thesis
    using empty contaMaisUsada_keys[of ns ft dat] order sums contaTop_last_max[of dat ns ft sn]
    by blast
qed

theorem contaTop_selection_witness:
  "dadosEmpate \<noteq> [] \<and>
   list_all (\<lambda>e. \<not> herdado (contaKey ns_exemplo e)) dadosEmpate \<and>
   list_all (\<lambda>e. somaCategoria ns_exemplo dadosEmpate (contaKey ns_exemplo e) \<noteq> NaN) dadosEmpate \<and>
   list_all (\<lambda>e. \<not> isArrayIndex (contaKey ns_exemplo e)) dadosEmpate \<and>
   map fst (contaMaisUsada ns_exemplo ft_exemplo dadosEmpate) = [U ''A'', U ''B'', U ''C''] \<and>
   Object_keys (contaMaisUsada ns_exemplo ft_exemplo dadosEmpate) = [U ''A'', U ''B'', U ''C''] \<and>
   contaTop digitosParaNumero ns_exemplo ft_exemplo dadosEmpate = U ''B'' \<and>
   valorContaTop digitosParaNumero ns_exemplo ft_exemplo dadosEmpate = PNum (Fin 10)"
proof -
  have h: "dadosEmpate \<noteq> []"
    "list_all (\<lambda>e. \<not> herdado (contaKey ns_exemplo e)) dadosEmpate"
    "list_all (\<lambda>e. somaCategoria ns_exemplo dadosEmpate (contaKey ns_exemplo e) \<noteq> NaN) dadosEmpate"
    "list_all (\<lambda>e. \<not> isArrayIndex (contaKey ns_exemplo e)) dadosEmpate"
    by (simp_all add: dadosEmpate_def entrada_def contaKey_def js_or_def isArrayIndex_def
        isDigit_def herdado_def protoFuncoes_def somaCategoria_def orZero_def num_truthy_def
        U_def)
  have k: "map fst (contaMaisUsada ns_exemplo ft_exemplo dadosEmpate) = [U ''A'', U ''B'', U ''C'']"
    using contaTop_selection[of digitosParaNumero ns_exemplo ft_exemplo dadosEmpate]
    by (simp add: dadosEmpate_def entrada_def contaKey_def js_or_def U_def)
  have o: "Object_keys (contaMaisUsada ns_exemplo ft_exemplo dadosEmpate) = [U ''A'', U ''B'', U ''C'']"
    using contaTop_selection[of digitosParaNumero ns_exemplo ft_exemplo dadosEmpate] h(4) k
    by (simp add: list_all_iff)
  have t: "contaTop digitosParaNumero ns_exemplo ft_exemplo dadosEmpate = U ''B''"
    "valorContaTop digitosParaNumero ns_exemplo ft_exemplo dadosEmpate = PNum (Fin 10)"
    by (simp_all add: contaTop_def valorContaTop_def contaMaisUsada_def dadosEmpate_def
        entrada_def contaKey_def js_or_def objGet_def pOrZero_def mais_def atribuir_def
        num_truthy_def Object_keys_def isArrayIndex_def isDigit_def maior_def pGt_def
        protoFuncoes_def U_def Nenhuma_def Nao_informada_def)
  show ?thesis using h k o t by simp
qed

text \<open>
  The leading category on inputs outside the hypotheses above: a category that
  \<open>Object.prototype\<close> defines, and sums that round to a tie.
\<close>

lemma proto_category_creates_no_key:
  "contaMaisUsada ns ft [entrada ''F1'' 20 5 ''__proto__''] = [] \<and>
   contaTop sn ns ft [entrada ''F1'' 20 5 ''__proto__''] = Nenhuma"
  by (simp add: contaTop_def contaMaisUsada_def entrada_def contaKey_def js_or_def atribuir_def
      Object_keys_def U_def)

lemma inherited_function_category_is_text:
  "contaMaisUsada ns ft [entrada ''F1'' 20 5 ''toString''] =
     [(U ''toString'', PStr (ft (U ''toString'') @ ns (Fin 5)))]"
  by (simp add: contaMaisUsada_def entrada_def contaKey_def js_or_def atribuir_def
      objGet_def protoFuncoes_def pOrZero_def mais_def U_def)

lemma rounded_tie_later_wins:
  "contaTop sn ns ft
     [entrada ''F1'' 0 10000000000000000 ''A'', entrada ''F2'' 0 1 ''A'',
      entrada ''F3'' 0 10000000000000000 ''B''] = U ''B''"
  using addition_rounds
  by (simp add: contaTop_def contaMaisUsada_def entrada_def contaKey_def
      js_or_def objGet_def pOrZero_def mais_def atribuir_def num_truthy_def Object_keys_def
      isArrayIndex_def isDigit_def maior_def pGt_def protoFuncoes_def U_def Nenhuma_def
      Nao_informada_def)

section \<open>Properties of the text normalizer\<close>

















section \<open>Properties of the text placement\<close>

lemma linhasDe_append: "linhasDe (ps @ qs) = linhasDe ps @ linhasDe qs"
  by (induction ps rule: linhasDe.induct) auto

lemma linhas_colocarLinha:
  "linhasDe (concat (paginas (colocarLinha l t))) = linhasDe (concat (paginas l)) @ [t]"
  by (simp add: colocarLinha_def Let_def paginas_def addPage_def desenhar_def linhasDe_append)

lemma cursor_advance:
  assumes "20 \<le> v" "0 \<le> d"
    and "length (anteriores l) = 1 \<longrightarrow> 30 + 7 * of_nat n \<le> v + d \<and> n \<le> 37"
  shows "jadd (Fin v) (Fin d) = PInf \<or>
     (\<exists>r. jadd (Fin v) (Fin d) = Fin r \<and> 20 \<le> r \<and>
          (length (anteriores l) = 1 \<longrightarrow> 30 + 7 * of_nat n \<le> r))"
proof -
  have a: "round64 (v + d) = PInf \<or> (\<exists>r. round64 (v + d) = Fin r \<and> of_int 20 \<le> r)"
    using assms(1,2) by (intro round64_lower) auto
  show ?thesis
  proof (cases "length (anteriores l) = 1")
    case False
    then show ?thesis using a by auto
  next
    case True
    then have b: "30 + 7 * of_nat n \<le> v + d" "n \<le> 37" using assms(3) by auto
    have c1: "1 \<le> 30 + 7 * int n" by simp
    have "30 + 7 * int n \<le> 289" using b(2) by simp
    moreover have "(289::int) \<le> 2 ^ 53" by simp
    ultimately have c2: "30 + 7 * int n \<le> 2 ^ 53" by linarith
    have c3: "of_int (30 + 7 * int n) \<le> v + d" using b(1) by simp
    from round64_lower[OF c1 c2 c3] a show ?thesis by auto
  qed
qed

lemma textoInv_colocarLinha:
  assumes "textoInv l"
  shows "textoInv (colocarLinha l t)"
proof -
  from assms have
    cur: "cursor l = PInf \<or>
       (\<exists>v. cursor l = Fin v \<and> 20 \<le> v \<and>
            (length (anteriores l) = 1 \<longrightarrow>
               30 + 7 * of_nat (length (linhasDe (atual l))) \<le> v))"
    and D: "\<forall>p \<in> set (concat (paginas l)). dentroDasMargens p"
    and T: "\<forall>pg \<in> set (drop 2 (paginas l)). \<exists>t rest. pg = Texto t (Fin 15) (Fin 20) # rest"
    and A: "anteriores l \<noteq> []" "linhasDe (hd (anteriores l)) = []"
    and C: "length (anteriores l) = 1 \<longrightarrow> length (linhasDe (atual l)) \<le> 36"
    unfolding textoInv_def by blast+
  show ?thesis
  proof (cases "jgt (cursor l) (Fin 280)")
    case True
    then have eq: "colocarLinha l t =
        \<lparr> anteriores = anteriores l @ [atual l], atual = [Texto t (Fin 15) (Fin 20)],
          cursor = Fin 27 \<rparr>"
      by (simp add: colocarLinha_def Let_def addPage_def desenhar_def)
    have len: "length (anteriores l @ [atual l]) \<noteq> 1" using A by (cases "anteriores l") auto
    have "2 \<le> length (paginas l)"
      using A by (cases "anteriores l") (auto simp: paginas_def)
    then have d2: "drop 2 (paginas l @ [[Texto t (Fin 15) (Fin 20)]]) =
        drop 2 (paginas l) @ [[Texto t (Fin 15) (Fin 20)]]"
      by simp
    show ?thesis
      unfolding textoInv_def eq using D T A len d2
      by (auto simp: paginas_def)
  next
    case False
    then obtain v where v: "cursor l = Fin v" "20 \<le> v" "v \<le> 280"
      and J: "length (anteriores l) = 1 \<longrightarrow> 30 + 7 * of_nat (length (linhasDe (atual l))) \<le> v"
      using cur by auto
    let ?n = "length (linhasDe (atual l))"
    have eq: "colocarLinha l t =
        \<lparr> anteriores = anteriores l, atual = atual l @ [Texto t (Fin 15) (Fin v)],
          cursor = jadd (Fin v) (Fin 7) \<rparr>"
      using v False by (simp add: colocarLinha_def Let_def desenhar_def)
    have cap: "?n \<le> 35" if "length (anteriores l) = 1"
    proof -
      have "30 + 7 * of_nat ?n \<le> (280 :: rat)" using J that v(3) by simp
      then have "of_nat (7 * ?n) \<le> (of_nat 250 :: rat)" by simp
      then have "7 * ?n \<le> 250" using of_nat_le_iff by blast
      then show ?thesis by simp
    qed
    have T': "\<forall>pg \<in> set (drop 2 (anteriores l @ [atual l @ [Texto t (Fin 15) (Fin v)]])).
        \<exists>t rest. pg = Texto t (Fin 15) (Fin 20) # rest"
    proof (cases "length (anteriores l) < 2")
      case True
      then show ?thesis using A by (cases "anteriores l") auto
    next
      case False
      then have "drop 2 (anteriores l @ [atual l @ [Texto t (Fin 15) (Fin v)]]) =
          drop 2 (anteriores l) @ [atual l @ [Texto t (Fin 15) (Fin v)]]"
        "drop 2 (paginas l) = drop 2 (anteriores l) @ [atual l]"
        by (simp_all add: paginas_def)
      then show ?thesis using T by (auto simp: Cons_eq_append_conv)
    qed
    have adv: "length (anteriores l) = 1 \<longrightarrow>
        30 + 7 * of_nat (Suc ?n) \<le> v + 7 \<and> Suc ?n \<le> 37"
      using J cap by auto
    from cursor_advance[OF v(2) _ adv] have
      c': "jadd (Fin v) (Fin 7) = PInf \<or>
        (\<exists>r. jadd (Fin v) (Fin 7) = Fin r \<and> 20 \<le> r \<and>
             (length (anteriores l) = 1 \<longrightarrow> 30 + 7 * of_nat (Suc ?n) \<le> r))"
      by simp
    have L: "linhasDe (atual l @ [Texto t (Fin 15) (Fin v)]) = linhasDe (atual l) @ [t]"
      by (simp add: linhasDe_append)
    have D': "\<forall>p \<in> set (concat (anteriores l @ [atual l @ [Texto t (Fin 15) (Fin v)]])).
        dentroDasMargens p"
      using D v by (auto simp: paginas_def)
    show ?thesis
      unfolding textoInv_def eq paginas_def
      using c' D' T' A cap by (simp add: L) 
  qed
qed

lemma textoInv_cursor:
  assumes "textoInv l"
  shows "textoInv (l\<lparr> cursor := jadd (cursor l) (Fin 5) \<rparr>)"
proof -
  from assms have
    cur: "cursor l = PInf \<or>
       (\<exists>v. cursor l = Fin v \<and> 20 \<le> v \<and>
            (length (anteriores l) = 1 \<longrightarrow>
               30 + 7 * of_nat (length (linhasDe (atual l))) \<le> v))"
    and C: "length (anteriores l) = 1 \<longrightarrow> length (linhasDe (atual l)) \<le> 36"
    unfolding textoInv_def by blast+
  let ?n = "length (linhasDe (atual l))"
  have "jadd (cursor l) (Fin 5) = PInf \<or>
       (\<exists>r. jadd (cursor l) (Fin 5) = Fin r \<and> 20 \<le> r \<and>
            (length (anteriores l) = 1 \<longrightarrow> 30 + 7 * of_nat ?n \<le> r))"
  proof (cases "cursor l = PInf")
    case True
    then show ?thesis by simp
  next
    case False
    then obtain v where v: "cursor l = Fin v" "20 \<le> v"
      and J: "length (anteriores l) = 1 \<longrightarrow> 30 + 7 * of_nat ?n \<le> v"
      using cur by auto
    have adv: "length (anteriores l) = 1 \<longrightarrow> 30 + 7 * of_nat ?n \<le> v + 5 \<and> ?n \<le> 37"
      using J C by auto
    from cursor_advance[OF v(2) _ adv] show ?thesis by (simp add: v(1))
  qed
  then show ?thesis
    using assms unfolding textoInv_def by (simp add: paginas_def)
qed

lemma paginas_cursor: "paginas (l\<lparr> cursor := c \<rparr>) = paginas l"
  by (simp add: paginas_def)

lemma textoInv_linhas:
  "textoInv l \<Longrightarrow> textoInv (foldl colocarLinha l ts)"
  by (induction ts arbitrary: l) (simp_all add: textoInv_colocarLinha)

lemma linhas_linhas:
  "linhasDe (concat (paginas (foldl colocarLinha l ts))) = linhasDe (concat (paginas l)) @ ts"
  by (induction ts arbitrary: l) (simp_all add: linhas_colocarLinha)

lemma textoInv_colocarTexto:
  "textoInv l \<Longrightarrow> textoInv (colocarTexto h l frs)"
  unfolding colocarTexto_def
  by (induction frs arbitrary: l) (simp_all add: textoInv_linhas)

lemma linhas_colocarTexto:
  "linhasDe (concat (paginas (colocarTexto h l frs))) =
     linhasDe (concat (paginas l)) @ concat (map (splitTextToSize h) frs)"
  unfolding colocarTexto_def
  by (induction frs arbitrary: l) (simp_all add: linhas_linhas)

lemma narrativa_Inr:
  assumes "narrativa h l dat = Inr l'"
  shows "\<exists>textos. map (textoItem h) dat = map Inr textos \<and>
     linhasDe (concat (paginas l')) =
       linhasDe (concat (paginas l)) @ concat (map (splitTextToSize h) (concat textos)) \<and>
     (textoInv l \<longrightarrow> textoInv l')"
  using assms
proof (induction dat arbitrary: l)
  case Nil
  then show ?case by simp
next
  case (Cons item rest)
  then obtain texto where t: "textoItem h item = Inr texto"
    by (cases "textoItem h item") auto
  let ?l1 = "(colocarTexto h l texto)\<lparr> cursor := jadd (cursor (colocarTexto h l texto)) (Fin 5) \<rparr>"
  have n: "narrativa h ?l1 rest = Inr l'" using Cons.prems t by simp
  from Cons.IH[OF n] obtain textos where
    m: "map (textoItem h) rest = map Inr textos"
    and ls: "linhasDe (concat (paginas l')) =
       linhasDe (concat (paginas ?l1)) @ concat (map (splitTextToSize h) (concat textos))"
    and iv: "textoInv ?l1 \<longrightarrow> textoInv l'"
    by blast
  have 1: "map (textoItem h) (item # rest) = map Inr (texto # textos)" using t m by simp
  have 2: "linhasDe (concat (paginas l')) =
       linhasDe (concat (paginas l)) @
       concat (map (splitTextToSize h) (concat (texto # textos)))"
    using ls by (simp add: paginas_cursor linhas_colocarTexto)
  have 3: "textoInv l \<longrightarrow> textoInv l'"
    using iv textoInv_cursor[OF textoInv_colocarTexto] by blast
  show ?case using 1 2 3 by blast
qed

lemma capa_anteriores: "anteriores (capa h r) = [] \<and> linhasDe (atual (capa h r)) = []"
  by (simp add: capa_def addImage_def desenhar_def Let_def linhasDe_append
      split: option.splits prod.splits)

lemma inicioAnalise_shape:
  "inicioAnalise h (capa h r) =
     \<lparr> anteriores = [atual (capa h r)],
       atual = [TextoCentro (U (''An'' @ [CHR 0xE1] @ ''lise do Relat'' @ [CHR 0xF3] @ ''rio''))
                  (jdiv (pageWidth h) (Fin 2)) (Fin 20)],
       cursor = Fin 30 \<rparr>"
  using capa_anteriores[of h r] by (simp add: inicioAnalise_def addPage_def desenhar_def)

lemma dentro_sem_linhas: "linhasDe ps = [] \<Longrightarrow> p \<in> set ps \<Longrightarrow> dentroDasMargens p"
  by (induction ps rule: linhasDe.induct) auto

lemma textoInv_inicio: "textoInv (inicioAnalise h (capa h r))"
  unfolding inicioAnalise_shape textoInv_def
  using capa_anteriores[of h r] dentro_sem_linhas[of "atual (capa h r)"]
  by (auto simp: paginas_def)

lemma linhas_inicio: "linhasDe (concat (paginas (inicioAnalise h (capa h r)))) = []"
  unfolding inicioAnalise_shape using capa_anteriores[of h r]
  by (simp add: paginas_def linhasDe_append)

lemma textoItem_length: "textoItem h e = Inr t \<Longrightarrow> length t = 4"
  by (auto simp: textoItem_def split: sum.splits)

lemma chamarLimparTexto_returns:
  "(\<exists>t. chamarLimparTexto h v = Inr t) \<longleftrightarrow> (\<exists>s. v = JStr s)"
  by (cases v) (simp_all add: chamarLimparTexto_def)

lemma textoItem_returns:
  "(\<exists>t. textoItem h e = Inr t) \<longleftrightarrow>
     (\<exists>s. fornecedor e = JStr s) \<and>
     (\<exists>s. js_or (area e) (JStr nao_informada) = JStr s) \<and>
     (\<exists>s. js_or (contaRazao e) (JStr nao_informada) = JStr s)"
proof -
  have c: "(\<exists>t. chamarLimparTexto h v = Inr t) \<or> chamarLimparTexto h v = Inl TypeError" for v
    by (cases v) (simp_all add: chamarLimparTexto_def)
  show ?thesis
    using chamarLimparTexto_returns[of h "fornecedor e"]
      chamarLimparTexto_returns[of h "js_or (area e) (JStr nao_informada)"]
      chamarLimparTexto_returns[of h "js_or (contaRazao e) (JStr nao_informada)"]
    by (auto simp: textoItem_def split: sum.splits)
qed

lemma narrativa_returns:
  "list_all (\<lambda>e. \<exists>t. textoItem h e = Inr t) dat \<Longrightarrow> \<exists>l'. narrativa h l dat = Inr l'"
  by (induction dat arbitrary: l) auto

lemma exportToPDF_returns:
  assumes "list_all (\<lambda>e. \<exists>t. textoItem h e = Inr t) dat"
  shows "\<exists>pgs. exportToPDF h r dat = Inr pgs"
  using narrativa_returns[OF assms, of "inicioAnalise h (capa h r)"]
  by (auto simp: exportToPDF_def)

lemma length_concat_const:
  "\<forall>t \<in> set ts. length t = n \<Longrightarrow> length (concat ts) = n * length ts"
  by (induction ts) auto

lemma textos_length:
  assumes "map (textoItem h) dat = map Inr textos"
  shows "length (concat textos) = 4 * length dat"
proof -
  have l: "length textos = length dat" using assms by (metis length_map)
  have "length t = 4" if "t \<in> set textos" for t
  proof -
    have "Inr t \<in> set (map (textoItem h) dat)" using that assms by simp
    then obtain e where "textoItem h e = Inr t" by auto
    then show ?thesis by (rule textoItem_length)
  qed
  then show ?thesis using length_concat_const[of textos 4] l by simp
qed

text \<open>
  Claim C6. When the export returns a document: every wrapped line of the narrative and of
  the consolidated text is drawn exactly once and whole, in order, on one page; every
  line is drawn within the margins, at a height between 20 and 280 (the overflow test
  precedes each line, a new page being started and the cursor reset to 20 when the
  cursor exceeds 280); every page after the first page of the analysis starts with a
  line at the top margin; and the document has the cover and at least one page of
  analysis, and at least two pages of analysis when the text has more than 36 lines,
  the most the first page of the analysis can hold.
\<close>

theorem text_pagination:
  assumes "exportToPDF h r dat = Inr pgs"
  shows "(\<exists>textos. map (textoItem h) dat = map Inr textos \<and>
            linhasDe (concat pgs) =
              concat (map (splitTextToSize h) (concat textos @ consolidado h dat))) \<and>
     (\<forall>pg \<in> set pgs. \<forall>p \<in> set pg. dentroDasMargens p) \<and>
     (\<forall>pg \<in> set (drop 2 pgs). \<exists>t rest. pg = Texto t (Fin 15) (Fin 20) # rest) \<and>
     2 \<le> length pgs \<and>
     (36 < length (linhasDe (concat pgs)) \<longrightarrow> 3 \<le> length pgs)"
proof -
  let ?l0 = "inicioAnalise h (capa h r)"
  from assms obtain l where n: "narrativa h ?l0 dat = Inr l"
    and pgs: "pgs = paginas (colocarTexto h (l\<lparr> cursor := jadd (cursor l) (Fin 5) \<rparr>)
                          (consolidado h dat))"
    by (auto simp: exportToPDF_def split: sum.splits)
  let ?lf = "colocarTexto h (l\<lparr> cursor := jadd (cursor l) (Fin 5) \<rparr>) (consolidado h dat)"
  from narrativa_Inr[OF n] obtain textos where
    m: "map (textoItem h) dat = map Inr textos"
    and ls: "linhasDe (concat (paginas l)) = concat (map (splitTextToSize h) (concat textos))"
    and iv: "textoInv l"
    using textoInv_inicio[of h r] by (auto simp: linhas_inicio)
  have ivf: "textoInv ?lf"
    using textoInv_colocarTexto[OF textoInv_cursor[OF iv]] .
  have 1: "linhasDe (concat pgs) =
      concat (map (splitTextToSize h) (concat textos @ consolidado h dat))"
    unfolding pgs by (simp add: linhas_colocarTexto paginas_cursor ls)
  have 2: "\<forall>pg \<in> set pgs. \<forall>p \<in> set pg. dentroDasMargens p"
    using ivf unfolding pgs textoInv_def by auto
  have 3: "\<forall>pg \<in> set (drop 2 pgs). \<exists>t rest. pg = Texto t (Fin 15) (Fin 20) # rest"
    using ivf unfolding pgs textoInv_def by blast
  have A: "anteriores ?lf \<noteq> []" "linhasDe (hd (anteriores ?lf)) = []"
    and C: "length (anteriores ?lf) = 1 \<longrightarrow> length (linhasDe (atual ?lf)) \<le> 36"
    using ivf unfolding textoInv_def by blast+
  have 4: "2 \<le> length pgs"
    unfolding pgs using A(1) by (cases "anteriores ?lf") (auto simp: paginas_def)
  have 5: "3 \<le> length pgs" if "36 < length (linhasDe (concat pgs))"
  proof (rule ccontr)
    assume "\<not> 3 \<le> length pgs"
    then have one: "length (anteriores ?lf) = 1"
      using 4 unfolding pgs by (simp add: paginas_def)
    then obtain c where c: "anteriores ?lf = [c]"
      by (cases "anteriores ?lf") auto
    have "linhasDe (concat pgs) = linhasDe (atual ?lf)"
      unfolding pgs using c A(2) by (simp add: paginas_def linhasDe_append)
    then show False using that C one by simp
  qed
  show ?thesis using m 1 2 3 4 5 by blast
qed

theorem text_pagination_witness:
  "\<exists>pgs. exportToPDF host_exemplo tresGraficos dezEntradas = Inr pgs \<and>
      length (linhasDe (concat pgs)) = 42 \<and> 3 \<le> length pgs"
proof -
  have ok: "list_all (\<lambda>e. \<exists>t. textoItem host_exemplo e = Inr t) dezEntradas"
    by (simp add: textoItem_returns dezEntradas_def entrada_def js_or_def)
  then obtain pgs where e: "exportToPDF host_exemplo tresGraficos dezEntradas = Inr pgs"
    using exportToPDF_returns by blast
  from text_pagination[OF e] obtain textos where
    m: "map (textoItem host_exemplo) dezEntradas = map Inr textos"
    and ls: "linhasDe (concat pgs) =
        concat (map (splitTextToSize host_exemplo) (concat textos @ consolidado host_exemplo dezEntradas))"
    and p: "36 < length (linhasDe (concat pgs)) \<longrightarrow> 3 \<le> length pgs"
    by blast
  have s: "concat (map (splitTextToSize host_exemplo) xs) = xs" for xs
    by (induction xs) (simp_all add: host_exemplo_def)
  have "length (linhasDe (concat pgs)) = 42"
    unfolding ls s using textos_length[OF m] by (simp add: consolidado_def dezEntradas_def)
  then show ?thesis using e p by simp
qed

section \<open>Failure of the export\<close>

lemma addImage_None: "addImage None l = l"
  by (simp add: addImage_def)

lemma erro_TypeError: "(e :: erro) = TypeError"
  by (cases e)

lemma narrativa_fails:
  "\<exists>e \<in> set dat. textoItem h e = Inl TypeError \<Longrightarrow> narrativa h l dat = Inl TypeError"
proof (induction dat arbitrary: l)
  case Nil
  then show ?case by simp
next
  case (Cons a dat)
  show ?case
  proof (cases "textoItem h a")
    case (Inl e)
    then show ?thesis using erro_TypeError[of e] by simp
  next
    case (Inr t)
    then have "\<exists>e \<in> set dat. textoItem h e = Inl TypeError" using Cons.prems by auto
    then show ?thesis using Cons.IH Inr by simp
  qed
qed

lemma exportToPDF_aborts:
  "\<exists>e \<in> set dat. textoItem h e = Inl TypeError \<Longrightarrow> exportToPDF h r dat = Inl TypeError"
  using narrativa_fails[of dat h "inicioAnalise h (capa h r)"] by (simp add: exportToPDF_def)

lemma mesmoTexto_colocarLinha:
  "mesmoTexto l l' \<Longrightarrow> mesmoTexto (colocarLinha l t) (colocarLinha l' t)"
  by (auto simp: mesmoTexto_def colocarLinha_def Let_def addPage_def desenhar_def)

lemma mesmoTexto_linhas:
  "mesmoTexto l l' \<Longrightarrow> mesmoTexto (foldl colocarLinha l ts) (foldl colocarLinha l' ts)"
  by (induction ts arbitrary: l l') (simp_all add: mesmoTexto_colocarLinha)

lemma mesmoTexto_colocarTexto:
  "mesmoTexto l l' \<Longrightarrow> mesmoTexto (colocarTexto h l frs) (colocarTexto h l' frs)"
  unfolding colocarTexto_def
  by (induction frs arbitrary: l l') (simp_all add: mesmoTexto_linhas)

lemma mesmoTexto_cursor:
  "mesmoTexto l l' \<Longrightarrow>
   mesmoTexto (l\<lparr> cursor := jadd (cursor l) c \<rparr>) (l'\<lparr> cursor := jadd (cursor l') c \<rparr>)"
  by (simp add: mesmoTexto_def)

lemma mesmoTexto_narrativa:
  assumes "mesmoTexto l l'"
  shows "(\<exists>e. narrativa h l dat = Inl e \<and> narrativa h l' dat = Inl e) \<or>
     (\<exists>m m'. narrativa h l dat = Inr m \<and> narrativa h l' dat = Inr m' \<and> mesmoTexto m m')"
  using assms
proof (induction dat arbitrary: l l')
  case Nil
  then show ?case by simp
next
  case (Cons item rest)
  show ?case
  proof (cases "textoItem h item")
    case (Inl e)
    then show ?thesis by simp
  next
    case (Inr texto)
    have "mesmoTexto
        ((colocarTexto h l texto)\<lparr> cursor := jadd (cursor (colocarTexto h l texto)) (Fin 5) \<rparr>)
        ((colocarTexto h l' texto)\<lparr> cursor := jadd (cursor (colocarTexto h l' texto)) (Fin 5) \<rparr>)"
      using mesmoTexto_cursor[OF mesmoTexto_colocarTexto[OF Cons.prems]] .
    from Cons.IH[OF this] show ?thesis using Inr by simp
  qed
qed

lemma mesmoTexto_paginas: "mesmoTexto l l' \<Longrightarrow> tl (paginas l) = tl (paginas l')"
  by (cases "anteriores l"; cases "anteriores l'") (auto simp: mesmoTexto_def paginas_def)

lemma charts_do_not_move_text:
  assumes "exportToPDF h r dat = Inr pgs" "exportToPDF h r' dat = Inr pgs'"
  shows "tl pgs = tl pgs'"
proof -
  have s: "mesmoTexto (inicioAnalise h (capa h r)) (inicioAnalise h (capa h r'))"
    unfolding inicioAnalise_shape by (simp add: mesmoTexto_def)
  from assms obtain l l' where
    n: "narrativa h (inicioAnalise h (capa h r)) dat = Inr l"
       "narrativa h (inicioAnalise h (capa h r')) dat = Inr l'"
    and p: "pgs = paginas (colocarTexto h (l\<lparr> cursor := jadd (cursor l) (Fin 5) \<rparr>)
                          (consolidado h dat))"
       "pgs' = paginas (colocarTexto h (l'\<lparr> cursor := jadd (cursor l') (Fin 5) \<rparr>)
                          (consolidado h dat))"
    by (auto simp: exportToPDF_def split: sum.splits)
  have "mesmoTexto l l'" using mesmoTexto_narrativa[OF s, of h dat] n by auto
  then show ?thesis
    unfolding p
    using mesmoTexto_paginas[OF mesmoTexto_colocarTexto[OF mesmoTexto_cursor]] by blast
qed

text \<open>
  Claim C9. The export is meant never to abort. It does abort on a record set the program
  itself produces: a spreadsheet row whose supplier cell holds the number 123 is imported
  with the supplier 123 (text cells are not converted to strings), and the export then
  throws a TypeError in \<open>limparTexto\<close>, so no document is written. (A missing chart
  is skipped, see \<open>addImage_None\<close> and \<open>charts_do_not_move_text\<close>. The
  export returns whenever the fragments of every entry can be built, that is when the
  supplier is a string and the area and the category are strings or falsy, see
  \<open>textoItem_returns\<close> and \<open>exportToPDF_returns\<close>; it aborts otherwise, see
  \<open>exportToPDF_aborts\<close>.)
\<close>

theorem numeric_supplier_aborts_export:
  "exportToPDF host_exemplo semGraficos
     (fromTabularRows digitosParaNumero [linha (JNum (Fin 123)) (JNum (Fin 5)) (JNum (Fin 3))])
   = Inl TypeError"
  by (simp add: exportToPDF_def textoItem_def chamarLimparTexto_def fromTabularRows_def
      importRow_def linha_def js_or_def num_truthy_def)

end
